theory Spec2Isabelle
  imports Main
begin

section \<open>Circuit breaker (packages/core/src/utils/circuit-breaker.ts)\<close>

text \<open>
  The class has three mutable fields and two constructor parameters. The only input from
  outside is the clock: \<^verbatim>\<open>Date.now()\<close> is read in \<^verbatim>\<open>recordFailure\<close> and in the OPEN
  branch of \<^verbatim>\<open>canAttempt\<close>. Each operation therefore takes the clock reading as an
  argument (an integer number of milliseconds) and returns the updated object. Counters
  and sizes are natural numbers throughout; times and durations are integers.
\<close>

datatype CircuitState = CLOSED | OPEN | HALF_OPEN

record CircuitBreaker =
  state :: CircuitState
  failureCount :: nat
  lastFailureTime :: "int option"
  threshold :: nat
  resetMs :: int

definition new_CircuitBreaker :: "nat \<Rightarrow> int \<Rightarrow> CircuitBreaker" where
  "new_CircuitBreaker thr rst =
     \<lparr>state = CLOSED, failureCount = 0, lastFailureTime = None, threshold = thr, resetMs = rst\<rparr>"

definition recordSuccess :: "CircuitBreaker \<Rightarrow> CircuitBreaker" where
  "recordSuccess cb = cb\<lparr>failureCount := 0, state := CLOSED\<rparr>"

definition recordFailure :: "int \<Rightarrow> CircuitBreaker \<Rightarrow> CircuitBreaker" where
  "recordFailure now cb =
     (let cb1 = cb\<lparr>failureCount := failureCount cb + 1, lastFailureTime := Some now\<rparr>
      in if failureCount cb1 \<ge> threshold cb1 then cb1\<lparr>state := OPEN\<rparr> else cb1)"

text \<open>
  In the OPEN branch the source tests
  \<^verbatim>\<open>this.lastFailureTime && now - this.lastFailureTime >= this.resetMs\<close>. The left operand
  of \<^verbatim>\<open>&&\<close> is tested for truthiness: \<^verbatim>\<open>null\<close> is falsy, and so is the number 0.
\<close>

definition canAttempt :: "int \<Rightarrow> CircuitBreaker \<Rightarrow> bool \<times> CircuitBreaker" where
  "canAttempt now cb =
     (if state cb = CLOSED then (True, cb)
      else if state cb = OPEN then
        (case lastFailureTime cb of
           None \<Rightarrow> (False, cb)
         | Some t \<Rightarrow>
             if t \<noteq> 0 \<and> now - t \<ge> resetMs cb
             then (True, cb\<lparr>state := HALF_OPEN\<rparr>)
             else (False, cb))
      else (True, cb))"

definition getState :: "CircuitBreaker \<Rightarrow> string" where
  "getState cb = (case state cb of CLOSED \<Rightarrow> ''CLOSED'' | OPEN \<Rightarrow> ''OPEN'' | HALF_OPEN \<Rightarrow> ''HALF_OPEN'')"

text \<open>
  A history of the object: the method calls made on it since construction, each with the
  clock reading it saw.
\<close>

datatype cb_call = RecordSuccess | RecordFailure int | CanAttempt int

fun cb_step :: "CircuitBreaker \<Rightarrow> cb_call \<Rightarrow> CircuitBreaker" where
  "cb_step cb RecordSuccess = recordSuccess cb"
| "cb_step cb (RecordFailure now) = recordFailure now cb"
| "cb_step cb (CanAttempt now) = snd (canAttempt now cb)"

definition cb_run :: "nat \<Rightarrow> int \<Rightarrow> cb_call list \<Rightarrow> CircuitBreaker" where
  "cb_run thr rst calls = foldl cb_step (new_CircuitBreaker thr rst) calls"

text \<open>
  Whenever the breaker is not CLOSED its failure counter has reached the threshold: the
  counter is reset only by \<^verbatim>\<open>recordSuccess\<close>, which also closes the breaker.
\<close>

definition cb_inv :: "CircuitBreaker \<Rightarrow> bool" where
  "cb_inv cb = (state cb = CLOSED \<or> threshold cb \<le> failureCount cb)"

section \<open>Breadcrumb buffer (packages/core/src/breadcrumb-buffer.ts)\<close>

record 'b BreadcrumbBuffer =
  buffer :: "'b list"
  maxSize :: nat

definition new_BreadcrumbBuffer :: "nat \<Rightarrow> 'b BreadcrumbBuffer" where
  "new_BreadcrumbBuffer n = \<lparr>buffer = [], maxSize = n\<rparr>"

text \<open>\<^verbatim>\<open>Array.prototype.shift\<close> removes the first element; on an empty array it does nothing.\<close>

definition shift :: "'a list \<Rightarrow> 'a list" where
  "shift xs = (case xs of [] \<Rightarrow> [] | _ # rest \<Rightarrow> rest)"

definition add :: "'b \<Rightarrow> 'b BreadcrumbBuffer \<Rightarrow> 'b BreadcrumbBuffer" where
  "add breadcrumb bb =
     (let b1 = (if length (buffer bb) \<ge> maxSize bb then shift (buffer bb) else buffer bb)
      in bb\<lparr>buffer := b1 @ [breadcrumb]\<rparr>)"

definition getAll :: "'b BreadcrumbBuffer \<Rightarrow> 'b list" where
  "getAll bb = buffer bb"

definition clear :: "'b BreadcrumbBuffer \<Rightarrow> 'b BreadcrumbBuffer" where
  "clear bb = bb\<lparr>buffer := []\<rparr>"

text \<open>The buffer after a sequence of \<^verbatim>\<open>add\<close> calls on a fresh object.\<close>

definition add_all :: "nat \<Rightarrow> 'b list \<Rightarrow> 'b BreadcrumbBuffer" where
  "add_all n xs = foldl (\<lambda>bb x. add x bb) (new_BreadcrumbBuffer n) xs"

text \<open>The last \<open>n\<close> entries of a history, oldest first (all of it when it is shorter).\<close>

definition most_recent :: "nat \<Rightarrow> 'a list \<Rightarrow> 'a list" where
  "most_recent n xs = drop (length xs - n) xs"

section \<open>Strings and regular expressions\<close>

text \<open>
  A JavaScript string is modelled as a \<^typ>\<open>string\<close>, one \<^typ>\<open>char\<close> per code unit (code units
  above 255 are not represented). \<^verbatim>\<open>String.prototype.trim\<close> and the class \<^verbatim>\<open>\s\<close> remove or
  match white space and line terminators: in this range the code units 9 to 13, 32 and 160.
\<close>

definition is_space :: "char \<Rightarrow> bool" where
  "is_space c = (of_char c \<in> {9, 10, 11, 12, 13, 32, 160 :: nat})"

definition trim :: "string \<Rightarrow> string" where
  "trim s = rev (dropWhile is_space (rev (dropWhile is_space s)))"

text \<open>
  The regular expressions of this repository are anchored at both ends (\<^verbatim>\<open>^...$\<close>) and are
  sequences of two kinds of item: a literal character, and a character class under a
  quantifier (\<^verbatim>\<open>+\<close>, the lazy \<^verbatim>\<open>+?\<close>, or \<^verbatim>\<open>{n}\<close>), which may be a capture group.
  \<^verbatim>\<open>String.prototype.match\<close> backtracks: a greedy quantifier tries its longest run first, a
  lazy one its shortest, and the first way to match the whole input wins. \<open>rx_match\<close>
  lists every way to match, in that order, each as the list of its captured groups;
  \<open>rx_exec\<close> takes the first.
\<close>

datatype quantifier = OneOrMore | OneOrMoreLazy | Exactly nat

datatype rx_item = Lit char | Cls bool "char \<Rightarrow> bool" quantifier

definition rx_candidates :: "quantifier \<Rightarrow> (char \<Rightarrow> bool) \<Rightarrow> string \<Rightarrow> (string \<times> string) list" where
  "rx_candidates q P s =
     (case q of
        Exactly n \<Rightarrow> (if n \<le> length (takeWhile P s) then [(take n s, drop n s)] else [])
      | OneOrMore \<Rightarrow> map (\<lambda>i. (take i s, drop i s)) (rev [1 ..< Suc (length (takeWhile P s))])
      | OneOrMoreLazy \<Rightarrow> map (\<lambda>i. (take i s, drop i s)) [1 ..< Suc (length (takeWhile P s))])"

fun rx_match :: "rx_item list \<Rightarrow> string \<Rightarrow> string list list" where
  "rx_match [] s = (if s = [] then [[]] else [])"
| "rx_match (Lit c # r) s = (case s of [] \<Rightarrow> [] | x # xs \<Rightarrow> if x = c then rx_match r xs else [])"
| "rx_match (Cls capture P q # r) s =
     concat (map (\<lambda>(a, b). map (\<lambda>groups. if capture then a # groups else groups) (rx_match r b))
                 (rx_candidates q P s))"

definition rx_exec :: "rx_item list \<Rightarrow> string \<Rightarrow> string list option" where
  "rx_exec r s = (case rx_match r s of [] \<Rightarrow> None | m # _ \<Rightarrow> Some m)"

text \<open>
  \<^verbatim>\<open>parseInt(s, radix)\<close> on a string that the regular expression has already checked to
  consist of digits of that radix (decimal digits, or lower-case hexadecimal ones). The
  result is a number of the language, a double: it is the integer the digits denote when
  that integer is below \<open>2 ^ 53\<close>, where every integer is a number; a longer run of digits
  gives a rounded number (or \<^verbatim>\<open>Infinity\<close>), which is left open here: \<open>Rounded\<close>.
\<close>

datatype js_integer = SafeInteger nat | Rounded

definition digit_val :: "char \<Rightarrow> nat" where
  "digit_val c = (if of_char c < (58::nat) then of_char c - 48 else of_char c - 87)"

definition parseInt :: "string \<Rightarrow> nat \<Rightarrow> js_integer" where
  "parseInt s radix =
     (let n = foldl (\<lambda>acc c. acc * radix + digit_val c) 0 s
      in if n < 2 ^ 53 then SafeInteger n else Rounded)"

section \<open>W3C trace context (packages/core/src/utils/w3c-trace-context.ts)\<close>

record TraceContext =
  version :: string
  traceId :: string
  parentSpanId :: string
  sampled :: bool

text \<open>The class \<^verbatim>\<open>[0-9a-f]\<close>: the regular expression has no \<^verbatim>\<open>i\<close> flag.\<close>

definition is_hex_lower :: "char \<Rightarrow> bool" where
  "is_hex_lower c = (c \<in> set ''0123456789abcdef'')"

definition TRACEPARENT_REGEX :: "rx_item list" where
  "TRACEPARENT_REGEX =
     [Cls True is_hex_lower (Exactly 2), Lit CHR ''-'', Cls True is_hex_lower (Exactly 32), Lit CHR ''-'',
      Cls True is_hex_lower (Exactly 16), Lit CHR ''-'', Cls True is_hex_lower (Exactly 2)]"

text \<open>
  \<^verbatim>\<open>(parseInt(match[4], 16) & 0x01) === 1\<close>: the lowest bit of the flags byte. (The bit is 0
  in a number of \<open>2 ^ 53\<close> or more, which two hexadecimal digits never give.)
\<close>

definition lowest_bit_set :: "js_integer \<Rightarrow> bool" where
  "lowest_bit_set n = (case n of SafeInteger k \<Rightarrow> k mod 2 = 1 | Rounded \<Rightarrow> False)"

definition parseTraceparent :: "string \<Rightarrow> TraceContext option" where
  "parseTraceparent header =
     (case rx_exec TRACEPARENT_REGEX (trim header) of
        Some [m1, m2, m3, m4] \<Rightarrow>
          Some \<lparr>version = m1, traceId = m2, parentSpanId = m3, sampled = lowest_bit_set (parseInt m4 16)\<rparr>
      | _ \<Rightarrow> None)"

definition createTraceparent :: "string \<Rightarrow> string \<Rightarrow> bool \<Rightarrow> string" where
  "createTraceparent trace_id span_id is_sampled =
     ''00-'' @ trace_id @ ''-'' @ span_id @ ''-'' @ (if is_sampled then ''01'' else ''00'')"

text \<open>
  A valid identifier of \<open>n\<close> hexadecimal characters, as the generators of
  packages/core/src/utils/trace-id.ts produce them (from the alphabet
  \<^verbatim>\<open>0123456789abcdef\<close>) and as the repository's tests check them (\<^verbatim>\<open>/^[0-9a-f]{32}$/\<close>).
\<close>

definition valid_hex_id :: "nat \<Rightarrow> string \<Rightarrow> bool" where
  "valid_hex_id n s = (length s = n \<and> list_all is_hex_lower s)"

section \<open>Batching transport (packages/core/src/transport/batch.ts)\<close>

text \<open>
  The transport talks to two collaborators that are not part of it: the inner transport
  it wraps (the interface of packages/types/src/transport.ts) and the host (the clock and
  the timers). Both are taken as parameters over an abstract state \<open>'w\<close> of the outside
  world:
  \<^item> \<open>inner_sendLogs batch w\<close>, \<open>inner_sendSpans\<close> (optional, as in the interface) and
    \<open>inner_flush\<close> run one call to completion: they return how the promise settled,
    fulfilled or rejected with a value, and the world afterwards (a call that throws
    instead of returning a promise is caught in the same \<^verbatim>\<open>try\<close>, like a rejection);
  \<^item> \<open>Date_now w\<close> is the clock reading in milliseconds;
  \<^item> \<open>setTimeout_wait d w\<close> is the world after awaiting a timer of \<open>d\<close> milliseconds.
  A caller awaits each call before making the next, and no timer tick runs in between;
  a tick of the interval timer is a call of \<open>flush\<close> (\<open>timer_tick\<close>).

  A value that is thrown, or that a promise is rejected with, is given by what the
  transport reads of it. It tests whether the value is an instance of \<^verbatim>\<open>Error\<close>. Of an
  \<^verbatim>\<open>Error\<close> it reads the message, to put it in a debug message
  (\<^verbatim>\<open>${lastError.message}\<close>); any other value it converts (\<^verbatim>\<open>String(error)\<close>). Either
  conversion to a string gives the string (\<open>Inr\<close>), or throws a value in its turn (\<open>Inl\<close>):
  \<^verbatim>\<open>String(Object.create(null))\<close> throws a \<^verbatim>\<open>TypeError\<close>, and a \<^verbatim>\<open>toString\<close> method may throw
  anything.
\<close>

datatype thrown = ErrorInstance "thrown + string" | NotAnError "thrown + string"

datatype settled = Fulfilled | Rejected thrown

record ('l, 's, 'w) Transport =
  inner_sendLogs :: "'l list \<Rightarrow> 'w \<Rightarrow> settled \<times> 'w"
  inner_sendSpans :: "('s list \<Rightarrow> 'w \<Rightarrow> settled \<times> 'w) option"
  inner_flush :: "'w \<Rightarrow> settled \<times> 'w"

record 'w Host =
  Date_now :: "'w \<Rightarrow> int"
  setTimeout_wait :: "int \<Rightarrow> 'w \<Rightarrow> 'w"

record ('l, 's, 'w) BatchTransportOptions =
  opt_inner :: "('l, 's, 'w) Transport"
  opt_batchSize :: "nat option"
  opt_flushInterval :: "int option"
  opt_maxBufferSize :: "nat option"
  opt_maxRetries :: "nat option"
  opt_retryDelayMs :: "int option"
  opt_circuitBreakerThreshold :: "nat option"
  opt_circuitBreakerResetMs :: "int option"
  opt_debug :: "bool option"

text \<open>
  What the transport does to its collaborators, in order: each call of the inner
  transport with the batch it was given and whether it was fulfilled, each call of the
  breaker's \<^verbatim>\<open>recordSuccess\<close> and \<^verbatim>\<open>recordFailure\<close>, and each back-off wait. The log is not
  a field of the class; it is kept beside the fields so that calls can be counted.
  \<open>replay\<close> (below) makes the calls of a log on a world again.
\<close>

datatype ('l, 's) effect =
    SendLogs "'l list" bool
  | SendSpans "'s list" bool
  | BreakerSuccess
  | BreakerFailure
  | Backoff int

text \<open>
  The fields of the class (\<open>timer\<close> holds the interval while the timer is set), then the
  host, the world and the log of effects.
\<close>

record ('l, 's, 'w) BatchTransport =
  logBuffer :: "'l list"
  spanBuffer :: "'s list"
  timer :: "int option"
  inner :: "('l, 's, 'w) Transport"
  batchSize :: nat
  maxBufferSize :: nat
  maxRetries :: nat
  retryDelayMs :: int
  circuitBreaker :: CircuitBreaker
  debug :: bool
  host :: "'w Host"
  world :: 'w
  effects :: "('l, 's) effect list"

definition default_to :: "'a \<Rightarrow> 'a option \<Rightarrow> 'a" where
  "default_to d v = (case v of None \<Rightarrow> d | Some x \<Rightarrow> x)"

definition new_BatchTransport ::
  "('l, 's, 'w) BatchTransportOptions \<Rightarrow> 'w Host \<Rightarrow> 'w \<Rightarrow> ('l, 's, 'w) BatchTransport" where
  "new_BatchTransport options h w =
     \<lparr>logBuffer = [], spanBuffer = [],
      timer = Some (default_to 5000 (opt_flushInterval options)),
      inner = opt_inner options,
      batchSize = default_to 100 (opt_batchSize options),
      maxBufferSize = default_to 10000 (opt_maxBufferSize options),
      maxRetries = default_to 3 (opt_maxRetries options),
      retryDelayMs = default_to 1000 (opt_retryDelayMs options),
      circuitBreaker = new_CircuitBreaker (default_to 5 (opt_circuitBreakerThreshold options))
                                          (default_to 30000 (opt_circuitBreakerResetMs options)),
      debug = default_to False (opt_debug options),
      host = h, world = w, effects = []\<rparr>"

text \<open>
  \<^verbatim>\<open>error instanceof Error ? error : new Error(String(error))\<close>, the value of \<^verbatim>\<open>lastError\<close>.
  An \<^verbatim>\<open>Error\<close> is kept as the conversion of its message, the one thing read of it later;
  the message of \<^verbatim>\<open>new Error(s)\<close> is the string \<open>s\<close>. The result is \<open>Inl x\<close> when
  \<^verbatim>\<open>String(error)\<close> throws \<open>x\<close>.
\<close>

type_synonym js_Error = "thrown + string"

definition to_Error :: "thrown \<Rightarrow> thrown + js_Error" where
  "to_Error error =
     (case error of
        ErrorInstance message \<Rightarrow> Inr message
      | NotAnError converted \<Rightarrow> (case converted of Inl x \<Rightarrow> Inl x | Inr s \<Rightarrow> Inr (Inr s)))"

text \<open>
  The messages for the console are built only when \<^verbatim>\<open>debug\<close> is set. Two of them contain
  \<^verbatim>\<open>${lastError.message}\<close> (\<^verbatim>\<open>${lastError?.message}\<close> after the loop, \<^verbatim>\<open>undefined\<close> while
  \<^verbatim>\<open>lastError\<close> is null): \<open>debug_message\<close> is what building such a message throws, if
  anything. What is written to the console is not part of the model.
\<close>

definition debug_message :: "bool \<Rightarrow> js_Error option \<Rightarrow> thrown option" where
  "debug_message dbg lastError =
     (if dbg then (case lastError of Some (Inl x) \<Rightarrow> Some x | _ \<Rightarrow> None) else None)"

text \<open>
  \<^verbatim>\<open>sendWithRetry\<close>: the loop \<^verbatim>\<open>for (attempt = 0; attempt <= maxRetries; attempt++)\<close> with its
  variable \<^verbatim>\<open>lastError\<close>, and what follows the loop. \<open>fn\<close> is the send to try and \<open>note\<close>
  makes its entry in the log of effects. A call of \<open>fn\<close> that is fulfilled ends the
  method. A rejection lands in \<^verbatim>\<open>catch\<close>, which converts the value, waits
  \<open>retryDelayMs * 2 ^ attempt\<close> when attempts remain and falls through to the next round;
  what the \<^verbatim>\<open>catch\<close> block itself throws leaves the method, whose promise is rejected
  with it. The result is how the promise of the method settles, and the transport.
\<close>

function retry_loop ::
  "('w \<Rightarrow> settled \<times> 'w) \<Rightarrow> (bool \<Rightarrow> ('l, 's) effect) \<Rightarrow> js_Error option \<Rightarrow> nat
     \<Rightarrow> ('l, 's, 'w) BatchTransport \<Rightarrow> settled \<times> ('l, 's, 'w) BatchTransport" where
  "retry_loop fn note lastError attempt t =
     (if attempt \<le> maxRetries t then
        (case fn (world t) of
           (Fulfilled, w1) \<Rightarrow>
             (Fulfilled,
              t\<lparr>world := w1,
                circuitBreaker := recordSuccess (circuitBreaker t),
                effects := effects t @ [note True, BreakerSuccess]\<rparr>)
         | (Rejected error, w1) \<Rightarrow>
             (case to_Error error of
                Inl x \<Rightarrow> (Rejected x, t\<lparr>world := w1, effects := effects t @ [note False]\<rparr>)
              | Inr e \<Rightarrow>
                  (if attempt < maxRetries t then
                     (case debug_message (debug t) (Some e) of
                        Some x \<Rightarrow> (Rejected x, t\<lparr>world := w1, effects := effects t @ [note False]\<rparr>)
                      | None \<Rightarrow>
                          retry_loop fn note (Some e) (attempt + 1)
                            (t\<lparr>world := setTimeout_wait (host t) (retryDelayMs t * 2 ^ attempt) w1,
                               effects := effects t @ [note False, Backoff (retryDelayMs t * 2 ^ attempt)]\<rparr>))
                   else
                     retry_loop fn note (Some e) (attempt + 1)
                       (t\<lparr>world := w1, effects := effects t @ [note False]\<rparr>))))
      else
        (let t1 = t\<lparr>circuitBreaker := recordFailure (Date_now (host t) (world t)) (circuitBreaker t),
                      effects := effects t @ [BreakerFailure]\<rparr>
         in case debug_message (debug t) lastError of
              Some x \<Rightarrow> (Rejected x, t1)
            | None \<Rightarrow> (Fulfilled, t1)))"
  by pat_completeness auto
termination
  by (relation "measure (\<lambda>(fn, note, lastError, attempt, t). Suc (maxRetries t) - attempt)") auto

definition sendWithRetry ::
  "('w \<Rightarrow> settled \<times> 'w) \<Rightarrow> (bool \<Rightarrow> ('l, 's) effect) \<Rightarrow> ('l, 's, 'w) BatchTransport
     \<Rightarrow> settled \<times> ('l, 's, 'w) BatchTransport" where
  "sendWithRetry fn note t = retry_loop fn note None 0 t"

text \<open>
  \<^verbatim>\<open>flush\<close>: when the breaker refuses, nothing else happens. Otherwise both buffers are
  emptied (\<^verbatim>\<open>splice(0)\<close>) and each batch that is not empty is sent; the spans only when the
  inner transport has a \<^verbatim>\<open>sendSpans\<close>, and only when the send of the logs has not thrown.
\<close>

definition flush :: "('l, 's, 'w) BatchTransport \<Rightarrow> settled \<times> ('l, 's, 'w) BatchTransport" where
  "flush t =
     (case canAttempt (Date_now (host t) (world t)) (circuitBreaker t) of
        (False, cb) \<Rightarrow> (Fulfilled, t\<lparr>circuitBreaker := cb\<rparr>)
      | (True, cb) \<Rightarrow>
          (let logs = logBuffer t;
               spans = spanBuffer t;
               t1 = t\<lparr>circuitBreaker := cb, logBuffer := [], spanBuffer := []\<rparr>
           in case (if length logs > 0
                    then sendWithRetry (inner_sendLogs (inner t1) logs) (SendLogs logs) t1
                    else (Fulfilled, t1)) of
                (Rejected x, t2) \<Rightarrow> (Rejected x, t2)
              | (Fulfilled, t2) \<Rightarrow>
                  (case inner_sendSpans (inner t2) of
                     Some send \<Rightarrow>
                       if length spans > 0 then sendWithRetry (send spans) (SendSpans spans) t2
                       else (Fulfilled, t2)
                   | None \<Rightarrow> (Fulfilled, t2))))"

text \<open>
  The body of the loops of \<^verbatim>\<open>sendLogs\<close> and \<^verbatim>\<open>sendSpans\<close>: an item is skipped
  (\<^verbatim>\<open>continue\<close>) when the buffer already holds \<open>maxBufferSize\<close> items or more, and pushed
  otherwise.
\<close>

definition push_unless_full :: "nat \<Rightarrow> 'a list \<Rightarrow> 'a \<Rightarrow> 'a list" where
  "push_unless_full cap buf item = (if length buf \<ge> cap then buf else buf @ [item])"

definition sendLogs :: "'l list \<Rightarrow> ('l, 's, 'w) BatchTransport \<Rightarrow> settled \<times> ('l, 's, 'w) BatchTransport" where
  "sendLogs logs t =
     (let t1 = t\<lparr>logBuffer := foldl (push_unless_full (maxBufferSize t)) (logBuffer t) logs\<rparr>
      in if length (logBuffer t1) \<ge> batchSize t1 then flush t1 else (Fulfilled, t1))"

definition sendSpans :: "'s list \<Rightarrow> ('l, 's, 'w) BatchTransport \<Rightarrow> settled \<times> ('l, 's, 'w) BatchTransport" where
  "sendSpans spans t =
     (let t1 = t\<lparr>spanBuffer := foldl (push_unless_full (maxBufferSize t)) (spanBuffer t) spans\<rparr>
      in if length (spanBuffer t1) \<ge> batchSize t1 then flush t1 else (Fulfilled, t1))"

definition destroy :: "('l, 's, 'w) BatchTransport \<Rightarrow> ('l, 's, 'w) BatchTransport" where
  "destroy t = t\<lparr>timer := None\<rparr>"

text \<open>The timer's callback \<^verbatim>\<open>() => this.flush()\<close>: nothing awaits the promise.\<close>

definition timer_tick :: "('l, 's, 'w) BatchTransport \<Rightarrow> ('l, 's, 'w) BatchTransport" where
  "timer_tick t = (case timer t of None \<Rightarrow> t | Some _ \<Rightarrow> snd (flush t))"

text \<open>The batches the inner transport's \<^verbatim>\<open>sendLogs\<close> or \<^verbatim>\<open>sendSpans\<close> was called with, in order.\<close>

fun log_calls :: "('l, 's) effect list \<Rightarrow> 'l list list" where
  "log_calls [] = []"
| "log_calls (SendLogs batch ok # es) = batch # log_calls es"
| "log_calls (e # es) = log_calls es"

fun span_calls :: "('l, 's) effect list \<Rightarrow> 's list list" where
  "span_calls [] = []"
| "span_calls (SendSpans batch ok # es) = batch # span_calls es"
| "span_calls (e # es) = span_calls es"

text \<open>The batches of logs that were delivered: the calls the inner transport fulfilled.\<close>

fun delivered_logs :: "('l, 's) effect list \<Rightarrow> 'l list list" where
  "delivered_logs [] = []"
| "delivered_logs (SendLogs batch True # es) = batch # delivered_logs es"
| "delivered_logs (e # es) = delivered_logs es"

text \<open>
  A sequence of \<^verbatim>\<open>sendLogs\<close> calls with one log each, made one after the other however
  each of them settles.
\<close>

definition append_each :: "'l list \<Rightarrow> ('l, 's, 'w) BatchTransport \<Rightarrow> ('l, 's, 'w) BatchTransport" where
  "append_each logs t = foldl (\<lambda>t1 l. snd (sendLogs [l] t1)) t logs"

text \<open>
  The calls of a log of effects, made again on a world: the result is the world after
  them, and \<open>None\<close> when a call does not settle the way the log says, or when the log has
  a call of a \<^verbatim>\<open>sendSpans\<close> that the inner transport does not have. The breaker is not
  part of the world.
\<close>

fun replay :: "('l, 's, 'w) Transport \<Rightarrow> 'w Host \<Rightarrow> ('l, 's) effect list \<Rightarrow> 'w \<Rightarrow> 'w option" where
  "replay i h [] w = Some w"
| "replay i h (SendLogs batch ok # es) w =
     (case inner_sendLogs i batch w of
        (r, w1) \<Rightarrow> if (r = Fulfilled) = ok then replay i h es w1 else None)"
| "replay i h (SendSpans batch ok # es) w =
     (case inner_sendSpans i of
        None \<Rightarrow> None
      | Some send \<Rightarrow>
          (case send batch w of
             (r, w1) \<Rightarrow> if (r = Fulfilled) = ok then replay i h es w1 else None))"
| "replay i h (Backoff d # es) w = replay i h es (setTimeout_wait h d w)"
| "replay i h (BreakerSuccess # es) w = replay i h es w"
| "replay i h (BreakerFailure # es) w = replay i h es w"

text \<open>
  The world after \<open>n + 1\<close> calls of \<open>fn\<close>, the first \<open>n\<close> of them each followed by the
  back-off wait: \<open>delay * 2 ^ k\<close> after the call number \<open>k\<close>, counted from 0.
\<close>

definition world_after_attempts :: "('w \<Rightarrow> settled \<times> 'w) \<Rightarrow> 'w Host \<Rightarrow> int \<Rightarrow> nat \<Rightarrow> 'w \<Rightarrow> 'w" where
  "world_after_attempts fn h delay n w =
     snd (fn (foldl (\<lambda>w1 k. setTimeout_wait h (delay * 2 ^ k) (snd (fn w1))) w [0 ..< n]))"

text \<open>
  A rejection that \<^verbatim>\<open>sendWithRetry\<close> handles: the value is an \<^verbatim>\<open>Error\<close> or can be converted to
  a string, and, when \<^verbatim>\<open>debug\<close> is set, the message of the \<^verbatim>\<open>Error\<close> can be converted too.
\<close>

definition handled_rejection :: "bool \<Rightarrow> settled \<Rightarrow> bool" where
  "handled_rejection dbg r =
     (case r of
        Fulfilled \<Rightarrow> False
      | Rejected error \<Rightarrow>
          (case to_Error error of
             Inl x \<Rightarrow> False
           | Inr e \<Rightarrow> debug_message dbg (Some e) = None))"

text \<open>
  The effects of \<open>mr + 1\<close> failed attempts, counted from attempt \<open>a\<close>: a back-off wait of
  \<open>delay * 2 ^ k\<close> follows the failed attempt number \<open>k\<close> when another attempt remains.
\<close>

definition failed_attempts :: "(bool \<Rightarrow> ('l, 's) effect) \<Rightarrow> int \<Rightarrow> nat \<Rightarrow> nat \<Rightarrow> ('l, 's) effect list" where
  "failed_attempts note delay a mr =
     concat (map (\<lambda>k. [note False, Backoff (delay * 2 ^ k)]) [a ..< mr]) @ [note False]"

text \<open>Neither buffer holds more than \<open>maxBufferSize\<close> items.\<close>

definition within_capacity :: "('l, 's, 'w) BatchTransport \<Rightarrow> bool" where
  "within_capacity t =
     (length (logBuffer t) \<le> maxBufferSize t \<and> length (spanBuffer t) \<le> maxBufferSize t)"

text \<open>The effects added between an earlier state of the transport and a later one.\<close>

definition effects_since :: "('l, 's, 'w) BatchTransport \<Rightarrow> ('l, 's, 'w) BatchTransport \<Rightarrow> ('l, 's) effect list" where
  "effects_since t t' = drop (length (effects t)) (effects t')"

text \<open>
  The inner transport of packages/core/tests/transport-batch.test.ts (\<^verbatim>\<open>makeMockInner\<close>): it
  counts its calls and, unless \<^verbatim>\<open>shouldFail\<close> is set, records each batch it is given.
  The host beside it has a clock that a timer wait advances by the delay.
\<close>

record mock_world =
  sentLogs :: "string list list"
  sentSpans :: "string list list"
  callCount :: nat
  clock :: int

definition mock_world0 :: mock_world where
  "mock_world0 = \<lparr>sentLogs = [], sentSpans = [], callCount = 0, clock = 1700000000000\<rparr>"

definition send_failed :: thrown where
  "send_failed = ErrorInstance (Inr ''send failed'')"

definition makeMockInner :: "bool \<Rightarrow> (string, string, mock_world) Transport" where
  "makeMockInner shouldFail =
     \<lparr>inner_sendLogs = (\<lambda>logs w.
        if shouldFail then (Rejected send_failed, w\<lparr>callCount := callCount w + 1\<rparr>)
        else (Fulfilled, w\<lparr>callCount := callCount w + 1, sentLogs := sentLogs w @ [logs]\<rparr>)),
      inner_sendSpans = Some (\<lambda>spans w.
        if shouldFail then (Rejected send_failed, w\<lparr>callCount := callCount w + 1\<rparr>)
        else (Fulfilled, w\<lparr>callCount := callCount w + 1, sentSpans := sentSpans w @ [spans]\<rparr>)),
      inner_flush = (\<lambda>w. (Fulfilled, w))\<rparr>"

definition mock_host :: "mock_world Host" where
  "mock_host = \<lparr>Date_now = clock, setTimeout_wait = (\<lambda>d w. w\<lparr>clock := clock w + d\<rparr>)\<rparr>"





text \<open>An inner transport that implements no \<^verbatim>\<open>sendSpans\<close>.\<close>

definition makeLogsOnlyInner :: "(string, string, mock_world) Transport" where
  "makeLogsOnlyInner = (makeMockInner False)\<lparr>inner_sendSpans := None\<rparr>"

definition mock_options ::
  "(string, string, mock_world) Transport \<Rightarrow> nat \<Rightarrow> nat option \<Rightarrow> nat
     \<Rightarrow> (string, string, mock_world) BatchTransportOptions" where
  "mock_options inner_transport batch_size max_buffer max_retries =
     \<lparr>opt_inner = inner_transport, opt_batchSize = Some batch_size, opt_flushInterval = Some 999999,
      opt_maxBufferSize = max_buffer, opt_maxRetries = Some max_retries, opt_retryDelayMs = Some 1,
      opt_circuitBreakerThreshold = None, opt_circuitBreakerResetMs = None, opt_debug = None\<rparr>"

text \<open>The fields that the constructor sets and no method except \<^verbatim>\<open>destroy\<close> assigns again.\<close>

definition same_config :: "('l, 's, 'w) BatchTransport \<Rightarrow> ('l, 's, 'w) BatchTransport \<Rightarrow> bool" where
  "same_config t t' =
    (timer t' = timer t \<and> inner t' = inner t \<and> host t' = host t \<and> batchSize t' = batchSize t \<and>
     maxBufferSize t' = maxBufferSize t \<and> maxRetries t' = maxRetries t \<and>
     retryDelayMs t' = retryDelayMs t \<and> debug t' = debug t)"

section \<open>Hub (packages/core/src/hub.ts)\<close>

text \<open>
  Modelled from the spec: the class \<^verbatim>\<open>Scope\<close> (imported from \<^verbatim>\<open>./scope\<close>, which is not among
  the sources). The spec's data model gives its fields: a trace id, an optional active
  span id, string tags, extras, a bounded breadcrumb sequence and the finished spans; and
  section 4.1 its \<^verbatim>\<open>addBreadcrumb(b)\<close>: it "appends respecting the bound", with "no error
  conditions; all operations are total". The bounded sequence is the breadcrumb buffer of
  packages/core/src/breadcrumb-buffer.ts.
\<close>

record ('b, 'v, 's) Scope =
  scope_traceId :: string
  scope_spanId :: "string option"
  tags :: "(string \<times> string) list"
  extras :: "(string \<times> 'v) list"
  breadcrumbs :: "'b BreadcrumbBuffer"
  spans :: "'s list"

text \<open>Modelled from the spec: a scope is created with a trace id; its breadcrumb buffer is bounded.\<close>

definition new_Scope :: "string \<Rightarrow> nat \<Rightarrow> ('b, 'v, 's) Scope" where
  "new_Scope trace_id max_breadcrumbs =
     \<lparr>scope_traceId = trace_id, scope_spanId = None, tags = [], extras = [],
      breadcrumbs = new_BreadcrumbBuffer max_breadcrumbs, spans = []\<rparr>"

text \<open>Modelled from the spec: \<^verbatim>\<open>Scope.addBreadcrumb\<close> "appends respecting the bound".\<close>

definition scope_addBreadcrumb :: "'b \<Rightarrow> ('b, 'v, 's) Scope \<Rightarrow> ('b, 'v, 's) Scope" where
  "scope_addBreadcrumb breadcrumb sc = sc\<lparr>breadcrumbs := add breadcrumb (breadcrumbs sc)\<rparr>"

text \<open>Modelled from the spec: \<^verbatim>\<open>Scope.getBreadcrumbs\<close> "returns a snapshot copy".\<close>

definition getBreadcrumbs :: "('b, 'v, 's) Scope \<Rightarrow> 'b list" where
  "getBreadcrumbs sc = getAll (breadcrumbs sc)"

text \<open>
  The class \<^verbatim>\<open>LogtideClient\<close> (imported from \<^verbatim>\<open>./client\<close>) is not among the sources either. The
  hub only calls three of its methods, each with the hub's global scope as the last
  argument; they are parameters here. A call gets the client and the scope, and either
  throws or returns both as it left them.
\<close>

datatype js_exception = Exception string

record ('c, 'e, 'm, 'b, 'v, 's) ClientMethods =
  client_captureError ::
    "'e \<Rightarrow> 'm option \<Rightarrow> 'c \<times> ('b, 'v, 's) Scope \<Rightarrow> js_exception + 'c \<times> ('b, 'v, 's) Scope"
  client_captureLog ::
    "string \<Rightarrow> string \<Rightarrow> 'm option \<Rightarrow> 'c \<times> ('b, 'v, 's) Scope \<Rightarrow> js_exception + 'c \<times> ('b, 'v, 's) Scope"
  client_addBreadcrumb ::
    "'b \<Rightarrow> 'c \<times> ('b, 'v, 's) Scope \<Rightarrow> js_exception + 'c \<times> ('b, 'v, 's) Scope"

text \<open>
  The hub's two fields. Each method returns the hub as it leaves it, or the exception
  that reaches its caller.
\<close>

record ('c, 'b, 'v, 's) Hub =
  client :: "'c option"
  globalScope :: "('b, 'v, 's) Scope"

definition new_Hub :: "string \<Rightarrow> nat \<Rightarrow> ('c, 'b, 'v, 's) Hub" where
  "new_Hub generated_trace_id max_breadcrumbs =
     \<lparr>client = None, globalScope = new_Scope generated_trace_id max_breadcrumbs\<rparr>"

definition getClient :: "('c, 'b, 'v, 's) Hub \<Rightarrow> 'c option" where
  "getClient h = client h"

definition getScope :: "('c, 'b, 'v, 's) Hub \<Rightarrow> ('b, 'v, 's) Scope" where
  "getScope h = globalScope h"

text \<open>\<^verbatim>\<open>this.client?.m(..., this.globalScope)\<close>: nothing is evaluated when the client is null.\<close>

definition optional_call ::
  "('c \<times> ('b, 'v, 's) Scope \<Rightarrow> js_exception + 'c \<times> ('b, 'v, 's) Scope)
     \<Rightarrow> ('c, 'b, 'v, 's) Hub \<Rightarrow> js_exception + ('c, 'b, 'v, 's) Hub" where
  "optional_call method h =
     (case client h of
        None \<Rightarrow> Inr h
      | Some c \<Rightarrow>
          (case method (c, globalScope h) of
             Inl e \<Rightarrow> Inl e
           | Inr (c', sc') \<Rightarrow> Inr (h\<lparr>client := Some c', globalScope := sc'\<rparr>)))"

definition captureError ::
  "('c, 'e, 'm, 'b, 'v, 's) ClientMethods \<Rightarrow> 'e \<Rightarrow> 'm option \<Rightarrow> ('c, 'b, 'v, 's) Hub
     \<Rightarrow> js_exception + ('c, 'b, 'v, 's) Hub" where
  "captureError methods error metadata h = optional_call (client_captureError methods error metadata) h"

definition captureLog ::
  "('c, 'e, 'm, 'b, 'v, 's) ClientMethods \<Rightarrow> string \<Rightarrow> string \<Rightarrow> 'm option \<Rightarrow> ('c, 'b, 'v, 's) Hub
     \<Rightarrow> js_exception + ('c, 'b, 'v, 's) Hub" where
  "captureLog methods level message metadata h =
     optional_call (client_captureLog methods level message metadata) h"

definition addBreadcrumb ::
  "('c, 'e, 'm, 'b, 'v, 's) ClientMethods \<Rightarrow> 'b \<Rightarrow> ('c, 'b, 'v, 's) Hub
     \<Rightarrow> js_exception + ('c, 'b, 'v, 's) Hub" where
  "addBreadcrumb methods breadcrumb h =
     optional_call (client_addBreadcrumb methods breadcrumb)
       (h\<lparr>globalScope := scope_addBreadcrumb breadcrumb (globalScope h)\<rparr>)"

text \<open>Client methods for the examples: a client that counts the calls made on it.\<close>

definition counting_client :: "(nat, string, unit, string, unit, unit) ClientMethods" where
  "counting_client =
     \<lparr>client_captureError = (\<lambda>error metadata (c, sc). Inr (c + 1, sc)),
      client_captureLog = (\<lambda>level message metadata (c, sc). Inr (c + 1, sc)),
      client_addBreadcrumb = (\<lambda>breadcrumb (c, sc). Inr (c + 1, sc))\<rparr>"

section \<open>Error serializer (packages/core/src/utils/error-serializer.ts)\<close>

subsection \<open>Captured values\<close>

text \<open>
  \<^verbatim>\<open>serializeError\<close> takes an \<^verbatim>\<open>unknown\<close>. The values it tells apart: the primitives, and
  references to objects, which are either instances of \<^verbatim>\<open>Error\<close> or not. Objects live in a
  heap, so that a \<^verbatim>\<open>cause\<close> can refer to any object, the error itself included. A
  primitive that is not \<^verbatim>\<open>undefined\<close>, \<^verbatim>\<open>null\<close>, a boolean or a string (a number, a big
  integer, a symbol) is \<open>JOther\<close>, given by the two things the code can observe of it:
  whether it is truthy, and the string that \<^verbatim>\<open>String\<close> makes of it. Objects hold data:
  functions, accessors and proxies are left out.

  An \<^verbatim>\<open>Error\<close> is read through \<^verbatim>\<open>name\<close>, \<^verbatim>\<open>message\<close>, \<^verbatim>\<open>stack\<close> and \<^verbatim>\<open>cause\<close>. The declaration of
  the language types the first two as strings and the third as an optional string, but
  nothing checks this at run time, and the code copies what it finds: each of the four is
  any value here, \<^verbatim>\<open>undefined\<close> when absent. The \<^verbatim>\<open>Error\<close> has besides its own enumerable
  properties (what \<^verbatim>\<open>Object.keys\<close> lists, in order, keys distinct), and the other
  properties that \<^verbatim>\<open>in\<close> and a property read still see (inherited or not enumerable).
\<close>

datatype jsval = JUndefined | JNull | JBool bool | JOther bool string | JStr string | JRef nat

record ErrorFields =
  err_name :: jsval
  err_message :: jsval
  err_stack :: jsval
  err_cause :: jsval
  err_own :: "(string \<times> jsval) list"
  err_other :: "(string \<times> jsval) list"

datatype jsobj = ErrorObject ErrorFields | PlainObject "(string \<times> jsval) list"

type_synonym heap = "nat \<Rightarrow> jsobj"

text \<open>Truthiness, as \<^verbatim>\<open>if (error.cause)\<close> and \<^verbatim>\<open>if (!stack)\<close> test it.\<close>

fun truthy :: "jsval \<Rightarrow> bool" where
  "truthy JUndefined = False"
| "truthy JNull = False"
| "truthy (JBool b) = b"
| "truthy (JOther t s) = t"
| "truthy (JStr s) = (s \<noteq> [])"
| "truthy (JRef a) = True"

text \<open>\<^verbatim>\<open>typeof v === 'string'\<close>.\<close>

fun is_string :: "jsval \<Rightarrow> bool" where
  "is_string (JStr s) = True"
| "is_string v = False"

subsection \<open>Stack traces\<close>

record StructuredStackFrame =
  frame_file :: "string option"
  frame_function :: "string option"
  frame_line :: "js_integer option"
  frame_column :: "js_integer option"

text \<open>\<^verbatim>\<open>\d\<close>, and \<^verbatim>\<open>.\<close> (no \<^verbatim>\<open>s\<close> flag): any code unit but a line terminator.\<close>

definition is_digit :: "char \<Rightarrow> bool" where
  "is_digit c = (c \<in> set ''0123456789'')"

definition is_dot :: "char \<Rightarrow> bool" where
  "is_dot c = (of_char c \<notin> {10, 13 :: nat})"

text \<open>The four patterns of \<^verbatim>\<open>parseStackTrace\<close>, in the order it tries them.\<close>

definition FRAME_FUNCTION_LOCATION :: "rx_item list" where
  "FRAME_FUNCTION_LOCATION =
     [Lit CHR ''a'', Lit CHR ''t'', Cls False is_space OneOrMore, Cls True is_dot OneOrMoreLazy,
      Cls False is_space OneOrMore, Lit CHR ''('', Cls True is_dot OneOrMore, Lit CHR '':'',
      Cls True is_digit OneOrMore, Lit CHR '':'', Cls True is_digit OneOrMore, Lit CHR '')'']"

definition FRAME_LOCATION :: "rx_item list" where
  "FRAME_LOCATION =
     [Lit CHR ''a'', Lit CHR ''t'', Cls False is_space OneOrMore, Cls True is_dot OneOrMore, Lit CHR '':'',
      Cls True is_digit OneOrMore, Lit CHR '':'', Cls True is_digit OneOrMore]"

definition FRAME_FUNCTION_PAREN :: "rx_item list" where
  "FRAME_FUNCTION_PAREN =
     [Lit CHR ''a'', Lit CHR ''t'', Cls False is_space OneOrMore, Cls True is_dot OneOrMoreLazy,
      Cls False is_space OneOrMore, Lit CHR ''('', Cls True is_dot OneOrMore, Lit CHR '')'']"

definition FRAME_FUNCTION :: "rx_item list" where
  "FRAME_FUNCTION =
     [Lit CHR ''a'', Lit CHR ''t'', Cls False is_space OneOrMore, Cls True is_dot OneOrMore]"

definition parse_frame :: "string \<Rightarrow> StructuredStackFrame option" where
  "parse_frame trimmed =
     (case rx_exec FRAME_FUNCTION_LOCATION trimmed of
        Some [m1, m2, m3, m4] \<Rightarrow>
          Some \<lparr>frame_file = Some m2, frame_function = Some m1,
                frame_line = Some (parseInt m3 10), frame_column = Some (parseInt m4 10)\<rparr>
      | _ \<Rightarrow>
     (case rx_exec FRAME_LOCATION trimmed of
        Some [m1, m2, m3] \<Rightarrow>
          Some \<lparr>frame_file = Some m1, frame_function = None,
                frame_line = Some (parseInt m2 10), frame_column = Some (parseInt m3 10)\<rparr>
      | _ \<Rightarrow>
     (case rx_exec FRAME_FUNCTION_PAREN trimmed of
        Some [m1, m2] \<Rightarrow>
          Some \<lparr>frame_file = Some m2, frame_function = Some m1, frame_line = None, frame_column = None\<rparr>
      | _ \<Rightarrow>
     (case rx_exec FRAME_FUNCTION trimmed of
        Some [m1] \<Rightarrow>
          Some \<lparr>frame_file = None, frame_function = Some m1, frame_line = None, frame_column = None\<rparr>
      | _ \<Rightarrow> None))))"

text \<open>\<^verbatim>\<open>stack.split('\n')\<close>.\<close>

fun split_lines :: "string \<Rightarrow> string list" where
  "split_lines [] = [[]]"
| "split_lines (c # cs) =
     (if c = CHR 0x0A then [] # split_lines cs
      else (case split_lines cs of [] \<Rightarrow> [[c]] | l # ls \<Rightarrow> (c # l) # ls))"

definition startsWith :: "string \<Rightarrow> string \<Rightarrow> bool" where
  "startsWith s p = (take (length p) s = p)"

text \<open>
  \<^verbatim>\<open>parseStackTrace\<close> is declared on a string or \<^verbatim>\<open>undefined\<close> and is called with whatever
  \<^verbatim>\<open>error.stack\<close> holds. A falsy value gives no frames. A string is split in lines. Any
  other value has no \<^verbatim>\<open>split\<close> method, and the call \<^verbatim>\<open>stack.split\<close> throws a \<^verbatim>\<open>TypeError\<close>. A
  result is \<open>Inl e\<close> when the call throws \<open>e\<close> and \<open>Inr r\<close> when it returns \<open>r\<close>.
\<close>

definition not_a_function :: js_exception where
  "not_a_function = Exception ''TypeError: stack.split is not a function''"

definition parseStackTrace :: "jsval \<Rightarrow> js_exception + StructuredStackFrame list" where
  "parseStackTrace stack =
     (if \<not> truthy stack then Inr []
      else (case stack of
              JStr s \<Rightarrow>
                Inr (concat (map (\<lambda>line.
                       let trimmed = trim line in
                       if \<not> startsWith trimmed ''at '' then []
                       else (case parse_frame trimmed of None \<Rightarrow> [] | Some frame \<Rightarrow> [frame]))
                     (split_lines s)))
            | _ \<Rightarrow> Inl not_a_function))"

subsection \<open>serializeError\<close>

text \<open>
  The result. The code copies \<^verbatim>\<open>error.name\<close>, \<^verbatim>\<open>error.message\<close> and \<^verbatim>\<open>error.stack\<close> into \<^verbatim>\<open>type\<close>,
  \<^verbatim>\<open>message\<close> and \<^verbatim>\<open>raw\<close> as they are, so these fields hold any value; \<^verbatim>\<open>raw\<close> is \<open>None\<close> when
  the result has no such property.
\<close>

datatype StructuredException =
  StructuredException
    (exn_type: jsval)
    (exn_message: jsval)
    (exn_stacktrace: "StructuredStackFrame list option")
    (exn_language: "string option")
    (exn_cause: "StructuredException option")
    (exn_metadata: "(string \<times> jsval) list option")
    (exn_raw: "jsval option")

text \<open>
  Property reads. \<open>lookup\<close> finds the value of a key; an assignment \<^verbatim>\<open>o[k] = v\<close> replaces the
  value of a key that is there and adds the key at the end otherwise.
\<close>

definition lookup :: "(string \<times> jsval) list \<Rightarrow> string \<Rightarrow> jsval option" where
  "lookup props k = map_of props k"

fun assign :: "(string \<times> jsval) list \<Rightarrow> string \<Rightarrow> jsval \<Rightarrow> (string \<times> jsval) list" where
  "assign [] k v = [(k, v)]"
| "assign ((k', v') # ps) k v = (if k' = k then (k, v) # ps else (k', v') # assign ps k v)"

definition standardProps :: "string list" where
  "standardProps = [''name'', ''message'', ''stack'', ''cause'']"

text \<open>
  The metadata of an \<^verbatim>\<open>Error\<close>: its own enumerable properties but the standard four, then
  \<^verbatim>\<open>code\<close> when the error has one anywhere (\<^verbatim>\<open>'code' in error\<close>).
\<close>

definition errorMetadata :: "(string \<times> jsval) list \<Rightarrow> (string \<times> jsval) list \<Rightarrow> (string \<times> jsval) list" where
  "errorMetadata own other =
     (let m = foldl (\<lambda>acc (k, v). if k \<in> set standardProps then acc else assign acc k v) [] own
      in case lookup (own @ other) ''code'' of
           None \<Rightarrow> m
         | Some v \<Rightarrow> assign m ''code'' v)"

text \<open>
  The result for an \<^verbatim>\<open>Error\<close>, given its parsed stack and the serialized cause when there
  is one.
\<close>

definition error_result ::
  "ErrorFields \<Rightarrow> StructuredStackFrame list \<Rightarrow> StructuredException option \<Rightarrow> StructuredException" where
  "error_result e stacktrace serialized_cause =
     StructuredException (err_name e) (err_message e) (Some stacktrace)
       (Some ''javascript'') serialized_cause
       (if errorMetadata (err_own e) (err_other e) = [] then None
        else Some (errorMetadata (err_own e) (err_other e)))
       (Some (err_stack e))"

text \<open>
  The result for a string, and for a primitive that is not a string, whose message is
  \<^verbatim>\<open>String(error)\<close>.
\<close>

definition message_result :: "string \<Rightarrow> StructuredException" where
  "message_result m = StructuredException (JStr ''Error'') (JStr m) None (Some ''javascript'') None None None"

text \<open>
  The result for an object that is not an \<^verbatim>\<open>Error\<close>. Its type is \<^verbatim>\<open>obj.type\<close> or \<^verbatim>\<open>obj.name\<close> when
  one is a string. Its message is \<^verbatim>\<open>obj.message\<close> when that is a string, and
  \<^verbatim>\<open>JSON.stringify(error)\<close> otherwise. \<^verbatim>\<open>JSON.stringify\<close> is the language's; it is a parameter,
  \<open>stringify heap v\<close>: \<open>Inl e\<close> where the call throws \<open>e\<close> (a \<^verbatim>\<open>TypeError\<close> on a circular
  structure, for one), \<open>Inr (Some s)\<close> where it returns the string \<open>s\<close>, and \<open>Inr None\<close>
  where it returns \<^verbatim>\<open>undefined\<close> (as it does for an object whose \<^verbatim>\<open>toJSON\<close> returns
  \<^verbatim>\<open>undefined\<close>). The metadata of the result is the object itself, given here by its
  properties.
\<close>

definition object_type :: "(string \<times> jsval) list \<Rightarrow> string" where
  "object_type props =
     (case lookup props ''type'' of
        Some (JStr s) \<Rightarrow> s
      | _ \<Rightarrow> (case lookup props ''name'' of Some (JStr s) \<Rightarrow> s | _ \<Rightarrow> ''Error''))"

definition object_result ::
  "(heap \<Rightarrow> jsval \<Rightarrow> js_exception + string option) \<Rightarrow> heap \<Rightarrow> jsval \<Rightarrow> (string \<times> jsval) list
     \<Rightarrow> js_exception + StructuredException" where
  "object_result stringify heap error props =
     (case (case lookup props ''message'' of
              Some (JStr s) \<Rightarrow> Inr (JStr s)
            | _ \<Rightarrow> (case stringify heap error of
                      Inl x \<Rightarrow> Inl x
                    | Inr None \<Rightarrow> Inr JUndefined
                    | Inr (Some s) \<Rightarrow> Inr (JStr s))) of
        Inl x \<Rightarrow> Inl x
      | Inr message \<Rightarrow>
          Inr (StructuredException (JStr (object_type props)) message None (Some ''javascript'') None
                 (Some props) None))"

text \<open>
  \<^verbatim>\<open>serializeError\<close> calls itself on the cause of an \<^verbatim>\<open>Error\<close> when the cause is truthy, and
  does not catch what that call throws. Every call takes a frame of the stack, and the
  stack is finite: the first argument is the number of nested calls of \<^verbatim>\<open>serializeError\<close>
  that the stack has room for when the call is made (the calls it makes to other
  functions are taken to fit). A call that finds no room throws a \<^verbatim>\<open>RangeError\<close>.
\<close>

definition stack_overflow :: js_exception where
  "stack_overflow = Exception ''RangeError: Maximum call stack size exceeded''"

fun serializeError ::
  "nat \<Rightarrow> (heap \<Rightarrow> jsval \<Rightarrow> js_exception + string option) \<Rightarrow> heap \<Rightarrow> jsval
     \<Rightarrow> js_exception + StructuredException" where
  "serializeError 0 stringify heap error = Inl stack_overflow"
| "serializeError (Suc room) stringify heap error =
     (case error of
        JRef a \<Rightarrow>
          (case heap a of
             ErrorObject e \<Rightarrow>
               (case parseStackTrace (err_stack e) of
                  Inl x \<Rightarrow> Inl x
                | Inr stacktrace \<Rightarrow>
                    if truthy (err_cause e)
                    then (case serializeError room stringify heap (err_cause e) of
                            Inl x \<Rightarrow> Inl x
                          | Inr serialized_cause \<Rightarrow>
                              Inr (error_result e stacktrace (Some serialized_cause)))
                    else Inr (error_result e stacktrace None))
           | PlainObject props \<Rightarrow> object_result stringify heap error props)
      | JStr s \<Rightarrow> Inr (message_result s)
      | JUndefined \<Rightarrow> Inr (message_result ''undefined'')
      | JNull \<Rightarrow> Inr (message_result ''null'')
      | JBool b \<Rightarrow> Inr (message_result (if b then ''true'' else ''false''))
      | JOther t s \<Rightarrow> Inr (message_result s))"

text \<open>
  The words in which the properties of \<^verbatim>\<open>serializeError\<close> are stated; none of them mentions
  the function. The chain of causes that starts at a value is the value, then the cause of
  the value when the value is an \<^verbatim>\<open>Error\<close> with a truthy cause, and so on. \<open>cause_chain n\<close>
  lists its first \<open>n\<close> values, or all when it has fewer.
\<close>

definition error_fields :: "heap \<Rightarrow> jsval \<Rightarrow> ErrorFields option" where
  "error_fields heap v =
     (case v of
        JRef a \<Rightarrow> (case heap a of ErrorObject e \<Rightarrow> Some e | PlainObject props \<Rightarrow> None)
      | _ \<Rightarrow> None)"

definition has_cause :: "heap \<Rightarrow> jsval \<Rightarrow> bool" where
  "has_cause heap v = (case error_fields heap v of Some e \<Rightarrow> truthy (err_cause e) | None \<Rightarrow> False)"

fun cause_chain :: "nat \<Rightarrow> heap \<Rightarrow> jsval \<Rightarrow> jsval list" where
  "cause_chain 0 heap v = []"
| "cause_chain (Suc n) heap v =
     v # (case error_fields heap v of
            Some e \<Rightarrow> if truthy (err_cause e) then cause_chain n heap (err_cause e) else []
          | None \<Rightarrow> [])"

text \<open>
  The values that can be rendered, one by one: an \<^verbatim>\<open>Error\<close> whose stack is falsy or a
  string; every primitive; and an object that is not an \<^verbatim>\<open>Error\<close>, unless it has no string
  message and \<^verbatim>\<open>JSON.stringify\<close> throws on it.
\<close>

definition throws :: "js_exception + 'a \<Rightarrow> bool" where
  "throws r = (case r of Inl x \<Rightarrow> True | Inr y \<Rightarrow> False)"

definition renderable :: "(heap \<Rightarrow> jsval \<Rightarrow> js_exception + string option) \<Rightarrow> heap \<Rightarrow> jsval \<Rightarrow> bool" where
  "renderable stringify heap v =
     (case v of
        JRef a \<Rightarrow>
          (case heap a of
             ErrorObject e \<Rightarrow> \<not> truthy (err_stack e) \<or> is_string (err_stack e)
           | PlainObject props \<Rightarrow>
               (case lookup props ''message'' of
                  Some m \<Rightarrow> is_string m \<or> \<not> throws (stringify heap v)
                | None \<Rightarrow> \<not> throws (stringify heap v)))
      | _ \<Rightarrow> True)"

text \<open>
  The values for which the type of the result is a string, and those for which its
  message is one: an \<^verbatim>\<open>Error\<close> gives its name and its message as they are; an object without
  a string message gives what \<^verbatim>\<open>JSON.stringify\<close> returns, which may be \<^verbatim>\<open>undefined\<close>.
\<close>

definition gives_string_type :: "heap \<Rightarrow> jsval \<Rightarrow> bool" where
  "gives_string_type heap v =
     (case error_fields heap v of Some e \<Rightarrow> is_string (err_name e) | None \<Rightarrow> True)"

definition gives_string_message ::
  "(heap \<Rightarrow> jsval \<Rightarrow> js_exception + string option) \<Rightarrow> heap \<Rightarrow> jsval \<Rightarrow> bool" where
  "gives_string_message stringify heap v =
     (case v of
        JRef a \<Rightarrow>
          (case heap a of
             ErrorObject e \<Rightarrow> is_string (err_message e)
           | PlainObject props \<Rightarrow>
               (case lookup props ''message'' of
                  Some m \<Rightarrow> is_string m \<or> stringify heap v \<noteq> Inr None
                | None \<Rightarrow> stringify heap v \<noteq> Inr None))
      | _ \<Rightarrow> True)"

text \<open>
  Heaps for the examples: an \<^verbatim>\<open>Error\<close> that is its own cause
  (\<^verbatim>\<open>const e = new Error('x'); e.cause = e\<close>); the error with a cause of the repository's
  tests; an \<^verbatim>\<open>Error\<close> whose name has been set to the number 42; and an empty object.
  As \<^verbatim>\<open>JSON.stringify\<close>: \<open>no_json\<close> throws (it stands for a \<^verbatim>\<open>JSON.stringify\<close> that is not
  reached, or that is given a circular structure), and \<open>undefined_json\<close> returns
  \<^verbatim>\<open>undefined\<close>.
\<close>

definition self_caused :: heap where
  "self_caused = (\<lambda>a. ErrorObject
     \<lparr>err_name = JStr ''Error'', err_message = JStr ''x'', err_stack = JStr ''Error: x'', err_cause = JRef 0,
      err_own = [], err_other = []\<rparr>)"

definition wrapped_error :: heap where
  "wrapped_error = (\<lambda>a.
     if a = 10 then ErrorObject
       \<lparr>err_name = JStr ''Error'', err_message = JStr ''Main error'',
        err_stack = JStr ''Error: Main error\<newline>    at main.js:20:10'', err_cause = JRef 11,
        err_own = [], err_other = []\<rparr>
     else ErrorObject
       \<lparr>err_name = JStr ''Error'', err_message = JStr ''Cause error'',
        err_stack = JStr ''Error: Cause error\<newline>    at cause.js:10:5'', err_cause = JUndefined,
        err_own = [], err_other = []\<rparr>)"

definition numbered_error :: heap where
  "numbered_error = (\<lambda>a. ErrorObject
     \<lparr>err_name = JOther True ''42'', err_message = JStr ''x'', err_stack = JStr ''Error: x'',
      err_cause = JUndefined, err_own = [], err_other = []\<rparr>)"

text \<open>
  A finite chain of any length: the \<^verbatim>\<open>Error\<close> at address \<open>k\<close> has the \<^verbatim>\<open>Error\<close> at address
  \<open>k - 1\<close> as its cause, and the one at address 0 has none.
\<close>

definition linked_errors :: heap where
  "linked_errors = (\<lambda>a. ErrorObject
     \<lparr>err_name = JStr ''Error'', err_message = JStr ''x'', err_stack = JStr ''Error: x'',
      err_cause = (if a = 0 then JUndefined else JRef (a - 1)), err_own = [], err_other = []\<rparr>)"

definition empty_object :: heap where
  "empty_object = (\<lambda>a. PlainObject [])"

definition circular_structure :: js_exception where
  "circular_structure = Exception ''TypeError: Converting circular structure to JSON''"

definition no_json :: "heap \<Rightarrow> jsval \<Rightarrow> js_exception + string option" where
  "no_json heap v = Inl circular_structure"

definition undefined_json :: "heap \<Rightarrow> jsval \<Rightarrow> js_exception + string option" where
  "undefined_json heap v = Inr None"

section \<open>Properties of the circuit breaker\<close>

lemma cb_run_snoc: "cb_run thr rst (calls @ [c]) = cb_step (cb_run thr rst calls) c"
  by (simp add: cb_run_def)

lemma config_cb_step: "threshold (cb_step cb c) = threshold cb \<and> resetMs (cb_step cb c) = resetMs cb"
  by (cases c) (simp_all add: recordSuccess_def recordFailure_def canAttempt_def Let_def
      split: option.splits)

lemma config_cb_run: "threshold (cb_run thr rst calls) = thr \<and> resetMs (cb_run thr rst calls) = rst"
proof (induction calls rule: rev_induct)
  case Nil
  show ?case by (simp add: cb_run_def new_CircuitBreaker_def)
next
  case (snoc c calls)
  then show ?case by (simp add: cb_run_snoc config_cb_step)
qed

lemma cb_inv_step: "cb_inv cb \<Longrightarrow> cb_inv (cb_step cb c)"
  by (cases c) (auto simp: cb_inv_def recordSuccess_def recordFailure_def canAttempt_def Let_def
      split: option.splits)

lemma cb_inv_run: "cb_inv (cb_run thr rst calls)"
proof (induction calls rule: rev_induct)
  case Nil
  show ?case by (simp add: cb_run_def new_CircuitBreaker_def cb_inv_def)
next
  case (snoc c calls)
  then show ?case by (simp add: cb_run_snoc cb_inv_step)
qed

lemma failures_only:
  "failureCount (cb_run thr rst (map RecordFailure ts)) = length ts \<and>
   lastFailureTime (cb_run thr rst (map RecordFailure ts)) = (if ts = [] then None else Some (last ts)) \<and>
   state (cb_run thr rst (map RecordFailure ts)) = (if ts \<noteq> [] \<and> thr \<le> length ts then OPEN else CLOSED)"
proof (induction ts rule: rev_induct)
  case Nil
  show ?case by (simp add: cb_run_def new_CircuitBreaker_def)
next
  case (snoc t ts)
  then show ?case by (auto simp add: cb_run_snoc recordFailure_def Let_def config_cb_run)
qed

text \<open>
  The cycle CLOSED, OPEN, HALF_OPEN, CLOSED, for a breaker whose last failure was stamped
  with a clock reading other than 0: after \<open>thr\<close> failures (\<open>thr \<ge> 1\<close>) at the clock
  readings \<open>ts\<close> the breaker is OPEN and refuses attempts until \<open>rst\<close> milliseconds have
  passed since the last of them; then it grants one, becomes HALF_OPEN, and a success
  closes it and resets the counter.
\<close>

lemma circuit_cycle_nonzero_clock:
  fixes thr :: nat and rst now :: int and ts :: "int list"
  defines "cb \<equiv> cb_run thr rst (map RecordFailure ts)"
  assumes thr: "1 \<le> thr" and len: "length ts = thr"
  shows "getState cb = ''OPEN'' \<and>
         (now - last ts < rst \<longrightarrow> canAttempt now cb = (False, cb)) \<and>
         (last ts \<noteq> 0 \<and> rst \<le> now - last ts \<longrightarrow>
           fst (canAttempt now cb) \<and> getState (snd (canAttempt now cb)) = ''HALF_OPEN'' \<and>
           getState (recordSuccess (snd (canAttempt now cb))) = ''CLOSED'' \<and>
           failureCount (recordSuccess (snd (canAttempt now cb))) = 0)"
proof -
  from thr len have ne: "ts \<noteq> []" by auto
  have st: "state cb = OPEN" and lf: "lastFailureTime cb = Some (last ts)"
    using failures_only[of thr rst ts] ne len by (simp_all add: cb_def)
  have rs: "resetMs cb = rst" by (simp add: cb_def config_cb_run)
  show ?thesis
    by (simp add: canAttempt_def st lf rs getState_def recordSuccess_def)
qed

text \<open>
  C1. The claim: after \<open>threshold\<close> consecutive failures the breaker is OPEN and refuses
  attempts; once \<open>resetMs\<close> has elapsed since the last failure, \<^verbatim>\<open>canAttempt()\<close> returns
  true and the state becomes HALF_OPEN. The code at a last failure stamped with the clock
  reading 0 (\<^verbatim>\<open>new CircuitBreaker(3, 1000)\<close>, three failures at clock 0, then
  \<^verbatim>\<open>canAttempt()\<close> at clock 1000, so \<open>resetMs\<close> has elapsed): the timestamp 0 is falsy,
  \<^verbatim>\<open>canAttempt()\<close> returns false and the breaker stays OPEN, and it does so at every
  later clock reading too.
\<close>

theorem circuit_breaker_stuck_open_at_clock_zero:
  "getState (cb_run 3 1000 [RecordFailure 0, RecordFailure 0, RecordFailure 0]) = ''OPEN'' \<and>
   (1000 :: int) \<le> 1000 - 0 \<and>
   canAttempt 1000 (cb_run 3 1000 [RecordFailure 0, RecordFailure 0, RecordFailure 0])
     = (False, cb_run 3 1000 [RecordFailure 0, RecordFailure 0, RecordFailure 0]) \<and>
   (\<forall>now. fst (canAttempt now (cb_run 3 1000 [RecordFailure 0, RecordFailure 0, RecordFailure 0])) = False)"
  by (simp add: cb_run_def new_CircuitBreaker_def recordFailure_def canAttempt_def Let_def getState_def)

text \<open>
  C4. In every state of the breaker that a sequence of calls can reach from construction
  and in which it is HALF_OPEN, one \<^verbatim>\<open>recordFailure()\<close> reopens it, whatever the threshold
  (and whatever the clock reads).
\<close>

theorem half_open_failure_reopens:
  "state (cb_run thr rst calls) = HALF_OPEN \<Longrightarrow>
   state (recordFailure now (cb_run thr rst calls)) = OPEN"
  using cb_inv_run[of thr rst calls]
  by (simp add: cb_inv_def recordFailure_def Let_def)

theorem half_open_failure_reopens_witness:
  "state (cb_run 5 1000 (replicate 5 (RecordFailure 7) @ [CanAttempt 2000])) = HALF_OPEN \<and>
   state (recordFailure 2001 (cb_run 5 1000 (replicate 5 (RecordFailure 7) @ [CanAttempt 2000]))) = OPEN"
proof -
  have h: "state (cb_run 5 1000 (replicate 5 (RecordFailure 7) @ [CanAttempt 2000])) = HALF_OPEN"
    by (simp add: cb_run_def new_CircuitBreaker_def recordFailure_def canAttempt_def Let_def
        numeral_eq_Suc)
  from h half_open_failure_reopens[OF h, of 2001] show ?thesis by simp
qed

section \<open>Properties of the breadcrumb buffer\<close>

lemma maxSize_add: "maxSize (add x bb) = maxSize bb"
  by (simp add: add_def Let_def)

lemma add_all_snoc: "add_all n (xs @ [x]) = add x (add_all n xs)"
  by (simp add: add_all_def)

lemma maxSize_add_all: "maxSize (add_all n xs) = n"
proof (induction xs rule: rev_induct)
  case Nil
  show ?case by (simp add: add_all_def new_BreadcrumbBuffer_def)
next
  case (snoc x xs)
  then show ?case by (simp add: add_all_snoc maxSize_add)
qed

lemma shift_tl: "shift xs = tl xs"
  by (cases xs) (simp_all add: shift_def)

lemma buffer_add_all:
  assumes "1 \<le> n"
  shows "buffer (add_all n xs) = most_recent n xs"
proof (induction xs rule: rev_induct)
  case Nil
  show ?case by (simp add: add_all_def new_BreadcrumbBuffer_def most_recent_def)
next
  case (snoc x xs)
  show ?case
  proof (cases "n \<le> length xs")
    case True
    with assms have "length (buffer (add_all n xs)) \<ge> n"
      by (simp add: snoc.IH most_recent_def)
    then have "buffer (add_all n (xs @ [x])) = tl (most_recent n xs) @ [x]"
      by (simp add: add_all_snoc add_def shift_tl snoc.IH maxSize_add_all)
    also have "\<dots> = most_recent n (xs @ [x])"
      using True assms by (simp add: most_recent_def drop_Suc[symmetric] tl_drop Suc_diff_le)
    finally show ?thesis .
  next
    case False
    with assms have "\<not> length (buffer (add_all n xs)) \<ge> n"
      by (simp add: snoc.IH most_recent_def)
    then have "buffer (add_all n (xs @ [x])) = most_recent n xs @ [x]"
      by (simp add: add_all_snoc add_def snoc.IH maxSize_add_all)
    also have "\<dots> = most_recent n (xs @ [x])"
      using False by (simp add: most_recent_def)
    finally show ?thesis .
  qed
qed

text \<open>
  C6, as amended: for a buffer of capacity \<open>maxSize \<ge> 1\<close>, an \<^verbatim>\<open>add()\<close> on a full buffer
  removes the oldest entry and appends the new one; after any sequence of \<^verbatim>\<open>add()\<close> calls
  on a fresh buffer \<^verbatim>\<open>getAll()\<close> returns the most recent \<open>maxSize\<close> entries (all of them
  when fewer were added) in insertion order; for capacity 3, adding a, b, c, d leaves
  [b, c, d].
\<close>

theorem breadcrumb_buffer_keeps_most_recent:
  "(1 \<le> maxSize bb \<and> length (buffer bb) = maxSize bb \<longrightarrow>
      getAll (add x bb) = tl (getAll bb) @ [x]) \<and>
   (1 \<le> n \<longrightarrow> getAll (add_all n xs) = most_recent n xs) \<and>
   getAll (add_all 3 [a, b, c, d]) = [b, c, d]"
proof (intro conjI impI)
  assume "1 \<le> maxSize bb \<and> length (buffer bb) = maxSize bb"
  then show "getAll (add x bb) = tl (getAll bb) @ [x]"
    by (simp add: add_def getAll_def shift_tl)
next
  assume "1 \<le> n"
  then show "getAll (add_all n xs) = most_recent n xs"
    by (simp add: getAll_def buffer_add_all)
next
  show "getAll (add_all 3 [a, b, c, d]) = [b, c, d]"
    by (simp add: add_all_def add_def new_BreadcrumbBuffer_def getAll_def shift_def)
qed

theorem breadcrumb_buffer_keeps_most_recent_witness:
  "getAll (add ''c'' \<lparr>buffer = [''a'', ''b''], maxSize = 2\<rparr>) = [''b'', ''c''] \<and>
   getAll (add_all 2 [''a'', ''b'', ''c'']) = [''b'', ''c'']"
  using breadcrumb_buffer_keeps_most_recent
    [of "\<lparr>buffer = [''a'', ''b''], maxSize = 2\<rparr>" "''c''" 2 "[''a'', ''b'', ''c'']"
        "''a''" "''b''" "''c''" "''d''"]
  by (simp add: getAll_def most_recent_def)

text \<open>
  C6 as stated fails for capacity 0: the buffer keeps the entry just added, so \<^verbatim>\<open>getAll()\<close>
  returns one entry where the most recent 0 entries are none.
\<close>

theorem breadcrumb_buffer_capacity_zero_counterexample:
  "getAll (add_all 0 [''a'']) = [''a''] \<and> most_recent 0 [''a''] = ([] :: string list) \<and>
   getAll (add_all 0 [''a'']) \<noteq> most_recent 0 [''a'']"
  by (simp add: add_all_def add_def new_BreadcrumbBuffer_def getAll_def shift_def most_recent_def)

section \<open>Properties of the trace context codec\<close>

lemma rx_exact:
  assumes "length a = n" "list_all P a"
  shows "rx_match (Cls True P (Exactly n) # r) (a @ b) = map (\<lambda>groups. a # groups) (rx_match r b)"
proof -
  from assms have "takeWhile P (a @ b) = a @ takeWhile P b"
    by (simp add: list_all_iff)
  with assms show ?thesis by (simp add: rx_candidates_def)
qed

lemma trim_id:
  assumes "s \<noteq> []" "\<not> is_space (hd s)" "\<not> is_space (last s)"
  shows "trim s = s"
proof -
  from assms have 1: "dropWhile is_space s = s" by (cases s) auto
  from assms have "rev s \<noteq> []" "\<not> is_space (hd (rev s))" by (simp_all add: hd_rev)
  then have 2: "dropWhile is_space (rev s) = rev s" by (cases "rev s") auto
  show ?thesis by (simp add: trim_def 1 2)
qed

text \<open>
  C7. For every valid 32-character trace id \<open>T\<close>, every valid 16-character span id \<open>S\<close>
  and every boolean \<open>b\<close>, parsing the header made from them gives a result (not null)
  with version "00", trace id \<open>T\<close>, parent span id \<open>S\<close> and sampled flag \<open>b\<close>.
\<close>

theorem traceparent_roundtrip:
  assumes "valid_hex_id 32 T" and "valid_hex_id 16 S"
  shows "parseTraceparent (createTraceparent T S b) =
           Some \<lparr>version = ''00'', traceId = T, parentSpanId = S, sampled = b\<rparr>"
proof -
  from assms have T: "length T = 32" "list_all is_hex_lower T"
    and S: "length S = 16" "list_all is_hex_lower S"
    by (simp_all add: valid_hex_id_def)
  define f where "f = (if b then ''01'' else ''00'')"
  define v where "v = ''00''"
  let ?h = "createTraceparent T S b"
  have h: "?h = v @ CHR ''-'' # T @ CHR ''-'' # S @ CHR ''-'' # f"
    by (simp add: createTraceparent_def f_def v_def)
  have f: "length f = 2" "list_all is_hex_lower f" by (simp_all add: is_hex_lower_def f_def)
  have v: "length v = 2" "list_all is_hex_lower v" by (simp_all add: is_hex_lower_def v_def)
  have m4: "rx_match [Cls True is_hex_lower (Exactly 2)] f = [[f]]"
    using rx_exact[OF f, of "[]" "[]"] by simp
  have m3: "rx_match [Cls True is_hex_lower (Exactly 16), Lit CHR ''-'', Cls True is_hex_lower (Exactly 2)]
              (S @ CHR ''-'' # f) = [[S, f]]"
    by (simp add: rx_exact[OF S] m4 del: rx_match.simps(3))
  have m2: "rx_match [Cls True is_hex_lower (Exactly 32), Lit CHR ''-'',
               Cls True is_hex_lower (Exactly 16), Lit CHR ''-'', Cls True is_hex_lower (Exactly 2)]
              (T @ CHR ''-'' # S @ CHR ''-'' # f) = [[T, S, f]]"
    by (simp add: rx_exact[OF T] m3 del: rx_match.simps(3))
  have m: "rx_match TRACEPARENT_REGEX ?h = [[v, T, S, f]]"
    unfolding TRACEPARENT_REGEX_def h
    by (simp add: rx_exact[OF v] m2 del: rx_match.simps(3))
  have "?h \<noteq> []" "\<not> is_space (hd ?h)" "\<not> is_space (last ?h)"
    by (simp_all add: createTraceparent_def is_space_def)
  then have t: "trim ?h = ?h" by (rule trim_id)
  have "lowest_bit_set (parseInt f 16) \<longleftrightarrow> b"
    by (simp add: f_def parseInt_def digit_val_def lowest_bit_set_def)
  then show ?thesis
    by (simp add: parseTraceparent_def t rx_exec_def m v_def)
qed

theorem traceparent_roundtrip_witness:
  "valid_hex_id 32 ''4bf92f3577b34da6a3ce929d0e0e4736'' \<and> valid_hex_id 16 ''00f067aa0ba902b7'' \<and>
   parseTraceparent (createTraceparent ''4bf92f3577b34da6a3ce929d0e0e4736'' ''00f067aa0ba902b7'' True) =
     Some \<lparr>version = ''00'', traceId = ''4bf92f3577b34da6a3ce929d0e0e4736'',
           parentSpanId = ''00f067aa0ba902b7'', sampled = True\<rparr>"
proof -
  have 1: "valid_hex_id 32 ''4bf92f3577b34da6a3ce929d0e0e4736''"
    by (simp add: valid_hex_id_def is_hex_lower_def)
  have 2: "valid_hex_id 16 ''00f067aa0ba902b7''"
    by (simp add: valid_hex_id_def is_hex_lower_def)
  from 1 2 traceparent_roundtrip[OF 1 2, of True] show ?thesis by simp
qed

text \<open>
  Upper-case hexadecimal digits are not valid in this sense: the parser rejects a header
  that carries them.
\<close>

lemma traceparent_upper_case_rejected:
  "parseTraceparent (createTraceparent ''4BF92F3577B34DA6A3CE929D0E0E4736'' ''00f067aa0ba902b7'' True) = None"
  by (simp add: parseTraceparent_def createTraceparent_def trim_def is_space_def rx_exec_def
      TRACEPARENT_REGEX_def rx_candidates_def is_hex_lower_def)

section \<open>Properties of the batching transport\<close>

declare retry_loop.simps [simp del]

lemma retry_loop_exhausted:
  "\<not> a \<le> maxRetries t \<Longrightarrow>
   retry_loop send tag le a t =
     (case debug_message (debug t) le of Some x \<Rightarrow> Rejected x | None \<Rightarrow> Fulfilled,
      t\<lparr>circuitBreaker := recordFailure (Date_now (host t) (world t)) (circuitBreaker t),
        effects := effects t @ [BreakerFailure]\<rparr>)"
  by (subst retry_loop.simps) (simp add: Let_def split: option.split)

lemma retry_loop_fulfilled:
  "a \<le> maxRetries t \<Longrightarrow> send (world t) = (Fulfilled, w1) \<Longrightarrow>
   retry_loop send tag le a t =
     (Fulfilled,
      t\<lparr>world := w1, circuitBreaker := recordSuccess (circuitBreaker t),
        effects := effects t @ [tag True, BreakerSuccess]\<rparr>)"
  by (subst retry_loop.simps) simp

lemma retry_loop_unconverted:
  "a \<le> maxRetries t \<Longrightarrow> send (world t) = (Rejected err, w1) \<Longrightarrow> to_Error err = Inl x \<Longrightarrow>
   retry_loop send tag le a t = (Rejected x, t\<lparr>world := w1, effects := effects t @ [tag False]\<rparr>)"
  by (subst retry_loop.simps) simp

lemma retry_loop_message_thrown:
  "a < maxRetries t \<Longrightarrow> send (world t) = (Rejected err, w1) \<Longrightarrow> to_Error err = Inr e \<Longrightarrow>
   debug_message (debug t) (Some e) = Some x \<Longrightarrow>
   retry_loop send tag le a t = (Rejected x, t\<lparr>world := w1, effects := effects t @ [tag False]\<rparr>)"
  by (subst retry_loop.simps) simp

lemma retry_loop_rejected:
  "a < maxRetries t \<Longrightarrow> send (world t) = (Rejected err, w1) \<Longrightarrow> to_Error err = Inr e \<Longrightarrow>
   debug_message (debug t) (Some e) = None \<Longrightarrow>
   retry_loop send tag le a t =
     retry_loop send tag (Some e) (Suc a)
       (t\<lparr>world := setTimeout_wait (host t) (retryDelayMs t * 2 ^ a) w1,
          effects := effects t @ [tag False, Backoff (retryDelayMs t * 2 ^ a)]\<rparr>)"
  by (subst retry_loop.simps) simp

lemma retry_loop_rejected_last:
  "a = maxRetries t \<Longrightarrow> send (world t) = (Rejected err, w1) \<Longrightarrow> to_Error err = Inr e \<Longrightarrow>
   retry_loop send tag le a t =
     (case debug_message (debug t) (Some e) of Some x \<Rightarrow> Rejected x | None \<Rightarrow> Fulfilled,
      t\<lparr>world := w1,
        circuitBreaker := recordFailure (Date_now (host t) w1) (circuitBreaker t),
        effects := effects t @ [tag False, BreakerFailure]\<rparr>)"
  by (subst retry_loop.simps) (simp add: retry_loop_exhausted)

text \<open>
  Induction over the rounds of the loop: a property of the state before and of the result
  holds of every run when it holds of a run that ends in the round, in each way a round
  can end, and is passed on from the run that follows a back-off wait.
\<close>

lemma retry_loop_rounds [consumes 1, case_names fulfilled unconverted message_thrown rejected_last rejected]:
  fixes P :: "nat \<Rightarrow> ('l, 's, 'w) BatchTransport \<Rightarrow> settled \<times> ('l, 's, 'w) BatchTransport \<Rightarrow> bool"
  assumes "a \<le> maxRetries t"
    and ful: "\<And>a t w1. a \<le> maxRetries t \<Longrightarrow> send (world t) = (Fulfilled, w1) \<Longrightarrow>
           P a t (Fulfilled,
                  t\<lparr>world := w1, circuitBreaker := recordSuccess (circuitBreaker t),
                    effects := effects t @ [tag True, BreakerSuccess]\<rparr>)"
    and unc: "\<And>a t w1 err x. a \<le> maxRetries t \<Longrightarrow> send (world t) = (Rejected err, w1) \<Longrightarrow>
           to_Error err = Inl x \<Longrightarrow>
           P a t (Rejected x, t\<lparr>world := w1, effects := effects t @ [tag False]\<rparr>)"
    and msg: "\<And>a t w1 err e x. a < maxRetries t \<Longrightarrow> send (world t) = (Rejected err, w1) \<Longrightarrow>
           to_Error err = Inr e \<Longrightarrow> debug_message (debug t) (Some e) = Some x \<Longrightarrow>
           P a t (Rejected x, t\<lparr>world := w1, effects := effects t @ [tag False]\<rparr>)"
    and lst: "\<And>a t w1 err e. a = maxRetries t \<Longrightarrow> send (world t) = (Rejected err, w1) \<Longrightarrow>
           to_Error err = Inr e \<Longrightarrow>
           P a t (case debug_message (debug t) (Some e) of Some x \<Rightarrow> Rejected x | None \<Rightarrow> Fulfilled,
                  t\<lparr>world := w1,
                    circuitBreaker := recordFailure (Date_now (host t) w1) (circuitBreaker t),
                    effects := effects t @ [tag False, BreakerFailure]\<rparr>)"
    and rej: "\<And>a t w1 err e r. a < maxRetries t \<Longrightarrow> send (world t) = (Rejected err, w1) \<Longrightarrow>
           to_Error err = Inr e \<Longrightarrow> debug_message (debug t) (Some e) = None \<Longrightarrow>
           P (Suc a)
             (t\<lparr>world := setTimeout_wait (host t) (retryDelayMs t * 2 ^ a) w1,
                effects := effects t @ [tag False, Backoff (retryDelayMs t * 2 ^ a)]\<rparr>) r \<Longrightarrow>
           P a t r"
  shows "P a t (retry_loop send tag le a t)"
  using assms(1)
proof (induction "maxRetries t - a" arbitrary: a t le)
  case 0
  then have eq: "a = maxRetries t" by simp
  obtain r w1 where f: "send (world t) = (r, w1)" by (cases "send (world t)")
  show ?case
  proof (cases r)
    case Fulfilled
    with f ful[of a t w1] 0 show ?thesis by (simp add: retry_loop_fulfilled)
  next
    case (Rejected err)
    show ?thesis
    proof (cases "to_Error err")
      case (Inl x)
      with f Rejected unc[of a t err w1 x] 0 show ?thesis by (simp add: retry_loop_unconverted)
    next
      case (Inr e)
      with f Rejected lst[of a t err w1 e] eq show ?thesis by (simp add: retry_loop_rejected_last)
    qed
  qed
next
  case (Suc n)
  then have lt: "a < maxRetries t" by simp
  obtain r w1 where f: "send (world t) = (r, w1)" by (cases "send (world t)")
  show ?case
  proof (cases r)
    case Fulfilled
    with f ful[of a t w1] lt show ?thesis by (simp add: retry_loop_fulfilled)
  next
    case (Rejected err)
    show ?thesis
    proof (cases "to_Error err")
      case (Inl x)
      with f Rejected unc[of a t err w1 x] lt show ?thesis by (simp add: retry_loop_unconverted)
    next
      case (Inr e)
      show ?thesis
      proof (cases "debug_message (debug t) (Some e)")
        case (Some x)
        with f Rejected Inr msg[of a t err w1 e x] lt show ?thesis
          by (simp add: retry_loop_message_thrown)
      next
        case None
        let ?t = "t\<lparr>world := setTimeout_wait (host t) (retryDelayMs t * 2 ^ a) w1,
                effects := effects t @ [tag False, Backoff (retryDelayMs t * 2 ^ a)]\<rparr>"
        have n: "n = maxRetries ?t - Suc a" using Suc.hyps(2) by simp
        have le': "Suc a \<le> maxRetries ?t" using lt by simp
        from Suc.hyps(1)[OF n le'] have "P (Suc a) ?t (retry_loop send tag (Some e) (Suc a) ?t)" .
        from rej[OF lt _ Inr None this] f Rejected
        have "P a t (retry_loop send tag (Some e) (Suc a) ?t)" by simp
        with f Rejected Inr None lt show ?thesis by (simp add: retry_loop_rejected)
      qed
    qed
  qed
qed




lemma replay_append:
  "replay i h (xs @ ys) w = (case replay i h xs w of None \<Rightarrow> None | Some w1 \<Rightarrow> replay i h ys w1)"
  by (induction i h xs w rule: replay.induct) (simp_all split: prod.split option.split)

lemma effects_since_append: "effects t' = effects t @ new \<Longrightarrow> effects_since t t' = new"
  by (simp add: effects_since_def)

lemma retry_loop_frame:
  assumes "a \<le> maxRetries t"
  shows "logBuffer (snd (retry_loop send tag le a t)) = logBuffer t \<and>
         spanBuffer (snd (retry_loop send tag le a t)) = spanBuffer t \<and>
         same_config t (snd (retry_loop send tag le a t))"
proof -
  define P :: "nat \<Rightarrow> ('a, 'b, 'c) BatchTransport \<Rightarrow> settled \<times> ('a, 'b, 'c) BatchTransport \<Rightarrow> bool"
    where "P = (\<lambda>a t r. logBuffer (snd r) = logBuffer t \<and> spanBuffer (snd r) = spanBuffer t \<and>
                         same_config t (snd r))"
  from assms have "P a t (retry_loop send tag le a t)"
    by (rule retry_loop_rounds[where P = P]) (simp_all add: P_def same_config_def)
  then show ?thesis by (simp add: P_def)
qed

lemma sendWithRetry_frame:
  "logBuffer (snd (sendWithRetry send tag t)) = logBuffer t \<and>
   spanBuffer (snd (sendWithRetry send tag t)) = spanBuffer t \<and>
   same_config t (snd (sendWithRetry send tag t))"
  by (simp add: sendWithRetry_def retry_loop_frame)

text \<open>
  The inner transport is called once in every round, with the batch of the call, and the
  rounds are at most \<open>maxRetries + 1\<close>.
\<close>

lemma retry_loop_log_calls:
  fixes t :: "('l, 's, 'w) BatchTransport"
  assumes "a \<le> maxRetries t"
  shows "\<exists>new k. effects (snd (retry_loop send (SendLogs b) le a t)) = effects t @ new \<and>
           log_calls new = replicate k b \<and> 1 \<le> k \<and> k \<le> Suc (maxRetries t) - a \<and> span_calls new = []"
proof -
  define P :: "nat \<Rightarrow> ('l, 's, 'w) BatchTransport \<Rightarrow> settled \<times> ('l, 's, 'w) BatchTransport \<Rightarrow> bool"
    where "P = (\<lambda>a t r. \<exists>new k. effects (snd r) = effects t @ new \<and>
           log_calls new = replicate k b \<and> 1 \<le> k \<and> k \<le> Suc (maxRetries t) - a \<and> span_calls new = [])"
  from assms have "P a t (retry_loop send (SendLogs b) le a t)"
  proof (rule retry_loop_rounds[where P = P])
    fix a :: nat and t :: "('l, 's, 'w) BatchTransport" and w1
    assume "a \<le> maxRetries t"
    then have "(1::nat) \<le> Suc (maxRetries t) - a" by simp
    moreover have "log_calls [SendLogs b True, BreakerSuccess :: ('l, 's) effect] = replicate 1 b"
      "span_calls [SendLogs b True, BreakerSuccess :: ('l, 's) effect] = []" by simp_all
    ultimately show "P a t (Fulfilled, t\<lparr>world := w1, circuitBreaker := recordSuccess (circuitBreaker t),
                    effects := effects t @ [SendLogs b True, BreakerSuccess]\<rparr>)"
      unfolding P_def by (intro exI[of _ "[SendLogs b True, BreakerSuccess]"] exI[of _ 1]) simp
  next
    fix a :: nat and t :: "('l, 's, 'w) BatchTransport" and w1 x
    assume "a \<le> maxRetries t"
    then have "(1::nat) \<le> Suc (maxRetries t) - a" by simp
    then show "P a t (Rejected x, t\<lparr>world := w1, effects := effects t @ [SendLogs b False]\<rparr>)"
      unfolding P_def by (intro exI[of _ "[SendLogs b False]"] exI[of _ 1]) simp
  next
    fix a :: nat and t :: "('l, 's, 'w) BatchTransport" and w1 x
    assume "a < maxRetries t"
    then have "(1::nat) \<le> Suc (maxRetries t) - a" by simp
    then show "P a t (Rejected x, t\<lparr>world := w1, effects := effects t @ [SendLogs b False]\<rparr>)"
      unfolding P_def by (intro exI[of _ "[SendLogs b False]"] exI[of _ 1]) simp
  next
    fix a :: nat and t :: "('l, 's, 'w) BatchTransport" and w1 e
    assume "a = maxRetries t"
    then have "(1::nat) \<le> Suc (maxRetries t) - a" by simp
    then show "P a t (case debug_message (debug t) (Some e) of Some x \<Rightarrow> Rejected x | None \<Rightarrow> Fulfilled,
                  t\<lparr>world := w1,
                    circuitBreaker := recordFailure (Date_now (host t) w1) (circuitBreaker t),
                    effects := effects t @ [SendLogs b False, BreakerFailure]\<rparr>)"
      unfolding P_def by (intro exI[of _ "[SendLogs b False, BreakerFailure]"] exI[of _ 1]) simp
  next
    fix a :: nat and t :: "('l, 's, 'w) BatchTransport" and w1 r
    let ?t = "t\<lparr>world := setTimeout_wait (host t) (retryDelayMs t * 2 ^ a) w1,
                effects := effects t @ [SendLogs b False, Backoff (retryDelayMs t * 2 ^ a)]\<rparr>"
    assume lt: "a < maxRetries t" and "P (Suc a) ?t r"
    then obtain new k where IH: "effects (snd r) = effects ?t @ new" "log_calls new = replicate k b"
      "1 \<le> k" "k \<le> Suc (maxRetries ?t) - Suc a" "span_calls new = []"
      unfolding P_def by blast
    let ?new = "[SendLogs b False, Backoff (retryDelayMs t * 2 ^ a)] @ new"
    from IH(1) have "effects (snd r) = effects t @ ?new" by simp
    moreover from IH(2) have "log_calls ?new = replicate (Suc k) b" by simp
    moreover from IH(5) have "span_calls ?new = []" by simp
    moreover from IH(4) lt have "Suc k \<le> Suc (maxRetries t) - a" by simp
    ultimately show "P a t r" unfolding P_def by (metis le_add1 plus_1_eq_Suc)
  qed
  then show ?thesis by (simp add: P_def)
qed

text \<open>The log of a run is the trace of its calls: replaying it gives the world of the result.\<close>

lemma retry_loop_replay:
  fixes t :: "('l, 's, 'w) BatchTransport"
  assumes "a \<le> maxRetries t"
  shows "\<exists>new. effects (snd (retry_loop (inner_sendLogs (inner t) b) (SendLogs b) le a t)) = effects t @ new \<and>
           replay (inner t) (host t) new (world t) =
             Some (world (snd (retry_loop (inner_sendLogs (inner t) b) (SendLogs b) le a t)))"
proof -
  define i where "i = inner t"
  define h where "h = host t"
  define P :: "nat \<Rightarrow> ('l, 's, 'w) BatchTransport \<Rightarrow> settled \<times> ('l, 's, 'w) BatchTransport \<Rightarrow> bool"
    where "P = (\<lambda>a t r. host t = h \<longrightarrow>
                  (\<exists>new. effects (snd r) = effects t @ new \<and> replay i h new (world t) = Some (world (snd r))))"
  from assms have "P a t (retry_loop (inner_sendLogs i b) (SendLogs b) le a t)"
  proof (rule retry_loop_rounds[where P = P])
    fix a :: nat and t :: "('l, 's, 'w) BatchTransport" and w1 r
    let ?t = "t\<lparr>world := setTimeout_wait (host t) (retryDelayMs t * 2 ^ a) w1,
                effects := effects t @ [SendLogs b False, Backoff (retryDelayMs t * 2 ^ a)]\<rparr>"
    fix err
    assume s: "inner_sendLogs i b (world t) = (Rejected err, w1)" and IH: "P (Suc a) ?t r"
    show "P a t r"
      unfolding P_def
    proof
      assume hh: "host t = h"
      with IH obtain new where n: "effects (snd r) = effects ?t @ new"
        "replay i h new (world ?t) = Some (world (snd r))"
        unfolding P_def by auto
      let ?new = "[SendLogs b False, Backoff (retryDelayMs t * 2 ^ a)] @ new"
      from n(1) have "effects (snd r) = effects t @ ?new" by simp
      moreover from n(2) s hh have "replay i h ?new (world t) = Some (world (snd r))" by simp
      ultimately show "\<exists>new. effects (snd r) = effects t @ new \<and> replay i h new (world t) = Some (world (snd r))"
        by blast
    qed
  qed (simp_all add: P_def)
  then show ?thesis by (simp add: P_def i_def h_def)
qed


text \<open>
  A run in which every call is rejected with a value that the \<^verbatim>\<open>catch\<close> block handles:
  every round is played, and \<^verbatim>\<open>recordFailure\<close> follows the last.
\<close>

lemma retry_loop_all_rejected:
  fixes t :: "('l, 's, 'w) BatchTransport"
  assumes "a \<le> maxRetries t" and "\<forall>w. handled_rejection (debug t) (fst (send w))"
  shows "fst (retry_loop send tag le a t) = Fulfilled \<and>
         world (snd (retry_loop send tag le a t)) =
           snd (send (foldl (\<lambda>w1 k. setTimeout_wait (host t) (retryDelayMs t * 2 ^ k) (snd (send w1)))
                        (world t) [a ..< maxRetries t])) \<and>
         circuitBreaker (snd (retry_loop send tag le a t)) =
           recordFailure (Date_now (host t) (world (snd (retry_loop send tag le a t)))) (circuitBreaker t) \<and>
         effects (snd (retry_loop send tag le a t)) =
           effects t @ failed_attempts tag (retryDelayMs t) a (maxRetries t) @ [BreakerFailure]"
proof -
  define h where "h = host t"
  define d where "d = retryDelayMs t"
  define dbg where "dbg = debug t"
  define mr where "mr = maxRetries t"
  define P :: "nat \<Rightarrow> ('l, 's, 'w) BatchTransport \<Rightarrow> settled \<times> ('l, 's, 'w) BatchTransport \<Rightarrow> bool"
    where "P = (\<lambda>a t r. host t = h \<and> retryDelayMs t = d \<and> debug t = dbg \<and> maxRetries t = mr \<longrightarrow>
       fst r = Fulfilled \<and>
       world (snd r) = snd (send (foldl (\<lambda>w1 k. setTimeout_wait h (d * 2 ^ k) (snd (send w1))) (world t) [a ..< mr])) \<and>
       circuitBreaker (snd r) = recordFailure (Date_now h (world (snd r))) (circuitBreaker t) \<and>
       effects (snd r) = effects t @ failed_attempts tag d a mr @ [BreakerFailure])"
  have hd: "\<And>w. handled_rejection dbg (fst (send w))" using assms(2) by (simp add: dbg_def)
  from assms(1) have "P a t (retry_loop send tag le a t)"
  proof (rule retry_loop_rounds[where P = P])
    fix a :: nat and t :: "('l, 's, 'w) BatchTransport" and w1
    assume "send (world t) = (Fulfilled, w1)"
    with hd[of "world t"] have False by (simp add: handled_rejection_def)
    then show "P a t (Fulfilled, t\<lparr>world := w1, circuitBreaker := recordSuccess (circuitBreaker t),
                    effects := effects t @ [tag True, BreakerSuccess]\<rparr>)" ..
  next
    fix a :: nat and t :: "('l, 's, 'w) BatchTransport" and w1 err x
    assume "send (world t) = (Rejected err, w1)" "to_Error err = Inl x"
    with hd[of "world t"] have False by (simp add: handled_rejection_def)
    then show "P a t (Rejected x, t\<lparr>world := w1, effects := effects t @ [tag False]\<rparr>)" ..
  next
    fix a :: nat and t :: "('l, 's, 'w) BatchTransport" and w1 err e x
    assume "send (world t) = (Rejected err, w1)" "to_Error err = Inr e"
      "debug_message (debug t) (Some e) = Some x"
    with hd[of "world t"] have m: "debug_message dbg (Some e) = None" "debug_message (debug t) (Some e) \<noteq> None"
      by (simp_all add: handled_rejection_def)
    have "debug t \<noteq> dbg"
    proof
      assume "debug t = dbg"
      with m show False by simp
    qed
    then show "P a t (Rejected x, t\<lparr>world := w1, effects := effects t @ [tag False]\<rparr>)"
      by (simp add: P_def)
  next
    fix a :: nat and t :: "('l, 's, 'w) BatchTransport" and w1 err e
    assume a: "a = maxRetries t" and s: "send (world t) = (Rejected err, w1)" and e: "to_Error err = Inr e"
    from hd[of "world t"] s e have "debug_message dbg (Some e) = None"
      by (simp add: handled_rejection_def)
    with a s show "P a t (case debug_message (debug t) (Some e) of Some x \<Rightarrow> Rejected x | None \<Rightarrow> Fulfilled,
                  t\<lparr>world := w1,
                    circuitBreaker := recordFailure (Date_now (host t) w1) (circuitBreaker t),
                    effects := effects t @ [tag False, BreakerFailure]\<rparr>)"
      by (auto simp: P_def failed_attempts_def)
  next
    fix a :: nat and t :: "('l, 's, 'w) BatchTransport" and w1 err e r
    let ?t = "t\<lparr>world := setTimeout_wait (host t) (retryDelayMs t * 2 ^ a) w1,
                effects := effects t @ [tag False, Backoff (retryDelayMs t * 2 ^ a)]\<rparr>"
    assume lt: "a < maxRetries t" and s: "send (world t) = (Rejected err, w1)" and IH: "P (Suc a) ?t r"
    show "P a t r"
      unfolding P_def
    proof (intro impI)
      assume c: "host t = h \<and> retryDelayMs t = d \<and> debug t = dbg \<and> maxRetries t = mr"
      with lt have u: "[a ..< mr] = a # [Suc a ..< mr]" by (simp add: upt_conv_Cons)
      from c IH have r: "fst r = Fulfilled"
        "world (snd r) = snd (send (foldl (\<lambda>w1 k. setTimeout_wait h (d * 2 ^ k) (snd (send w1))) (world ?t) [Suc a ..< mr]))"
        "circuitBreaker (snd r) = recordFailure (Date_now h (world (snd r))) (circuitBreaker ?t)"
        "effects (snd r) = effects ?t @ failed_attempts tag d (Suc a) mr @ [BreakerFailure]"
        unfolding P_def by simp_all
      have fa: "failed_attempts tag d a mr = [tag False, Backoff (d * 2 ^ a)] @ failed_attempts tag d (Suc a) mr"
        using lt c by (simp add: failed_attempts_def u)
      from r c s show "fst r = Fulfilled \<and>
       world (snd r) = snd (send (foldl (\<lambda>w1 k. setTimeout_wait h (d * 2 ^ k) (snd (send w1))) (world t) [a ..< mr])) \<and>
       circuitBreaker (snd r) = recordFailure (Date_now h (world (snd r))) (circuitBreaker t) \<and>
       effects (snd r) = effects t @ failed_attempts tag d a mr @ [BreakerFailure]"
        unfolding u fa by simp
    qed
  qed
  then show ?thesis by (simp add: P_def h_def d_def dbg_def mr_def)
qed




lemma flush_granted:
  assumes "canAttempt (Date_now (host t) (world t)) (circuitBreaker t) = (True, cb)"
  shows "flush t =
    (let t1 = t\<lparr>circuitBreaker := cb, logBuffer := [], spanBuffer := []\<rparr>
     in case (if logBuffer t \<noteq> []
              then sendWithRetry (inner_sendLogs (inner t) (logBuffer t)) (SendLogs (logBuffer t)) t1
              else (Fulfilled, t1)) of
          (Rejected x, t2) \<Rightarrow> (Rejected x, t2)
        | (Fulfilled, t2) \<Rightarrow>
            (case inner_sendSpans (inner t) of
               Some send \<Rightarrow>
                 if spanBuffer t \<noteq> [] then sendWithRetry (send (spanBuffer t)) (SendSpans (spanBuffer t)) t2
                 else (Fulfilled, t2)
             | None \<Rightarrow> (Fulfilled, t2)))"
proof -
  let ?t1 = "t\<lparr>circuitBreaker := cb, logBuffer := [], spanBuffer := []\<rparr>"
  let ?r = "sendWithRetry (inner_sendLogs (inner t) (logBuffer t)) (SendLogs (logBuffer t)) ?t1"
  have "inner (snd ?r) = inner t"
    using sendWithRetry_frame[of "inner_sendLogs (inner t) (logBuffer t)" "SendLogs (logBuffer t)" ?t1]
    by (simp add: same_config_def)
  then have "\<And>s t2. ?r = (s, t2) \<Longrightarrow> inner t2 = inner t" by simp
  then show ?thesis
    using assms by (simp add: flush_def Let_def split: prod.split settled.split option.split)
qed

text \<open>
  C9. When the inner transport has no \<^verbatim>\<open>sendSpans\<close> and the breaker grants the attempt,
  \<^verbatim>\<open>flush()\<close> leaves the span buffer empty, makes no span send, and is in every respect
  the flush of the same transport with an empty span buffer: the buffered spans have no
  effect on the inner transport or on the breaker. With no logs buffered either, the
  flush has no effect at all.
\<close>

theorem flush_discards_spans:
  assumes "inner_sendSpans (inner t) = None"
      and "fst (canAttempt (Date_now (host t) (world t)) (circuitBreaker t))"
  shows "spanBuffer (snd (flush t)) = [] \<and>
         effects (snd (flush t)) = effects t @ effects_since t (snd (flush t)) \<and>
         span_calls (effects_since t (snd (flush t))) = [] \<and>
         flush t = flush (t\<lparr>spanBuffer := []\<rparr>) \<and>
         (logBuffer t = [] \<longrightarrow> effects (snd (flush t)) = effects t \<and> world (snd (flush t)) = world t)"
proof -
  obtain cb where c: "canAttempt (Date_now (host t) (world t)) (circuitBreaker t) = (True, cb)"
    using assms(2) by (cases "canAttempt (Date_now (host t) (world t)) (circuitBreaker t)") auto
  let ?t1 = "t\<lparr>circuitBreaker := cb, logBuffer := [], spanBuffer := []\<rparr>"
  let ?r = "if logBuffer t \<noteq> []
               then sendWithRetry (inner_sendLogs (inner t) (logBuffer t)) (SendLogs (logBuffer t)) ?t1
               else (Fulfilled, ?t1)"
  have fl: "flush t = ?r" using flush_granted[OF c] assms(1)
    by (simp add: Let_def split: prod.split settled.split)
  have c': "canAttempt (Date_now (host (t\<lparr>spanBuffer := []\<rparr>)) (world (t\<lparr>spanBuffer := []\<rparr>)))
              (circuitBreaker (t\<lparr>spanBuffer := []\<rparr>)) = (True, cb)"
    using c by simp
  have fl': "flush (t\<lparr>spanBuffer := []\<rparr>) = ?r"
    using flush_granted[OF c'] assms(1) by (simp add: Let_def split: prod.split settled.split)
  have sb: "spanBuffer (snd ?r) = []"
    using sendWithRetry_frame[of "inner_sendLogs (inner t) (logBuffer t)" "SendLogs (logBuffer t)" ?t1]
    by simp
  have "\<exists>new. effects (snd ?r) = effects t @ new \<and> span_calls new = []"
  proof (cases "logBuffer t = []")
    case True
    then show ?thesis by simp
  next
    case False
    from retry_loop_log_calls[of 0 ?t1 "inner_sendLogs (inner t) (logBuffer t)" "logBuffer t" None]
    show ?thesis using False by (auto simp: sendWithRetry_def)
  qed
  then obtain new where n: "effects (snd ?r) = effects t @ new" "span_calls new = []" by blast
  then have "effects_since t (snd ?r) = new" by (intro effects_since_append)
  with n sb fl fl' show ?thesis by simp
qed

theorem flush_discards_spans_witness:
  "inner_sendSpans (inner (snd (sendSpans [''s1'', ''s2''] (new_BatchTransport (mock_options makeLogsOnlyInner 1000 None 0) mock_host mock_world0)))) = None \<and>
   spanBuffer (snd (sendSpans [''s1'', ''s2''] (new_BatchTransport (mock_options makeLogsOnlyInner 1000 None 0) mock_host mock_world0))) = [''s1'', ''s2''] \<and>
   spanBuffer (snd (flush (snd (sendSpans [''s1'', ''s2''] (new_BatchTransport (mock_options makeLogsOnlyInner 1000 None 0) mock_host mock_world0))))) = [] \<and>
   effects (snd (flush (snd (sendSpans [''s1'', ''s2''] (new_BatchTransport (mock_options makeLogsOnlyInner 1000 None 0) mock_host mock_world0))))) = [] \<and>
   world (snd (flush (snd (sendSpans [''s1'', ''s2''] (new_BatchTransport (mock_options makeLogsOnlyInner 1000 None 0) mock_host mock_world0))))) = mock_world0"
proof -
  let ?t = "snd (sendSpans [''s1'', ''s2''] (new_BatchTransport (mock_options makeLogsOnlyInner 1000 None 0) mock_host mock_world0))"
  have t: "?t = (new_BatchTransport (mock_options makeLogsOnlyInner 1000 None 0) mock_host mock_world0)\<lparr>spanBuffer := [''s1'', ''s2'']\<rparr>"
    by (simp add: sendSpans_def Let_def new_BatchTransport_def mock_host_def mock_options_def default_to_def push_unless_full_def)
  have 1: "inner_sendSpans (inner ?t) = None"
    unfolding t by (simp add: new_BatchTransport_def mock_host_def mock_options_def makeLogsOnlyInner_def)
  have 2: "fst (canAttempt (Date_now (host ?t) (world ?t)) (circuitBreaker ?t))"
    unfolding t by (simp add: new_BatchTransport_def canAttempt_def new_CircuitBreaker_def)
  from flush_discards_spans[OF 1 2] 1 show ?thesis
    unfolding t
    by (simp add: new_BatchTransport_def flush_def canAttempt_def new_CircuitBreaker_def Let_def
        mock_options_def makeLogsOnlyInner_def default_to_def)
qed

lemma push_all_take:
  "foldl (push_unless_full cap) buf items = buf @ take (cap - length buf) items"
proof (induction items arbitrary: buf)
  case Nil
  show ?case by simp
next
  case (Cons x xs)
  show ?case
  proof (cases "cap \<le> length buf")
    case True
    then show ?thesis using Cons[of buf] by (simp add: push_unless_full_def)
  next
    case False
    then have "cap - length buf = Suc (cap - length (buf @ [x]))" by simp
    then show ?thesis using Cons[of "buf @ [x]"] False by (simp add: push_unless_full_def)
  qed
qed

lemma sendLogs_single_quiet:
  assumes "Suc (length (logBuffer t)) < batchSize t"
  shows "effects (snd (sendLogs [l] t)) = effects t \<and> world (snd (sendLogs [l] t)) = world t \<and>
         length (logBuffer (snd (sendLogs [l] t))) \<le> Suc (length (logBuffer t)) \<and>
         batchSize (snd (sendLogs [l] t)) = batchSize t"
  using assms by (simp add: sendLogs_def push_unless_full_def Let_def)

lemma append_each_quiet:
  "length (logBuffer t) + length ls < batchSize t \<Longrightarrow>
   effects (append_each ls t) = effects t \<and> world (append_each ls t) = world t \<and>
   length (logBuffer (append_each ls t)) \<le> length (logBuffer t) + length ls \<and>
   batchSize (append_each ls t) = batchSize t"
proof (induction ls arbitrary: t)
  case Nil
  show ?case by (simp add: append_each_def)
next
  case (Cons l ls)
  let ?t = "snd (sendLogs [l] t)"
  from Cons.prems have "Suc (length (logBuffer t)) < batchSize t" by simp
  from sendLogs_single_quiet[OF this, of l]
  have q: "effects ?t = effects t" "world ?t = world t" "length (logBuffer ?t) \<le> Suc (length (logBuffer t))"
    "batchSize ?t = batchSize t" by simp_all
  with Cons.prems have "length (logBuffer ?t) + length ls < batchSize ?t" by simp
  from Cons.IH[OF this] q have "effects (append_each ls ?t) = effects t \<and>
   world (append_each ls ?t) = world t \<and>
   length (logBuffer (append_each ls ?t)) \<le> length (logBuffer t) + length (l # ls) \<and>
   batchSize (append_each ls ?t) = batchSize t" by simp
  then show ?case by (simp add: append_each_def)
qed

lemma append_each_buffered:
  "length (logBuffer t) + length ls < batchSize t \<Longrightarrow>
   length (logBuffer t) + length ls \<le> maxBufferSize t \<Longrightarrow>
   append_each ls t = t\<lparr>logBuffer := logBuffer t @ ls\<rparr>"
proof (induction ls arbitrary: t)
  case Nil
  show ?case by (simp add: append_each_def)
next
  case (Cons l ls)
  let ?t = "t\<lparr>logBuffer := logBuffer t @ [l]\<rparr>"
  from Cons.prems have s: "snd (sendLogs [l] t) = ?t"
    by (simp add: sendLogs_def push_unless_full_def Let_def)
  from Cons.prems have "length (logBuffer ?t) + length ls < batchSize ?t"
    "length (logBuffer ?t) + length ls \<le> maxBufferSize ?t" by simp_all
  from Cons.IH[OF this] s show ?case by (simp add: append_each_def)
qed

lemma append_each_snoc: "append_each (ls @ [l]) t = snd (sendLogs [l] (append_each ls t))"
  by (simp add: append_each_def)

lemma canAttempt_closed: "state cb = CLOSED \<Longrightarrow> canAttempt now cb = (True, cb)"
  by (simp add: canAttempt_def)

text \<open>A flush of a transport whose breaker is CLOSED and whose span buffer is empty.\<close>

lemma flush_logs_only:
  assumes "state (circuitBreaker t) = CLOSED" "spanBuffer t = []" "logBuffer t \<noteq> []"
  shows "flush t = sendWithRetry (inner_sendLogs (inner t) (logBuffer t)) (SendLogs (logBuffer t))
                     (t\<lparr>logBuffer := []\<rparr>)"
proof -
  have e: "t\<lparr>circuitBreaker := circuitBreaker t, logBuffer := [], spanBuffer := []\<rparr> = t\<lparr>logBuffer := []\<rparr>"
    using assms(2) by simp
  have "canAttempt (Date_now (host t) (world t)) (circuitBreaker t) = (True, circuitBreaker t)"
    using assms(1) by (rule canAttempt_closed)
  from flush_granted[OF this] show ?thesis
    unfolding e using assms
    by (cases "sendWithRetry (inner_sendLogs (inner t) (logBuffer t)) (SendLogs (logBuffer t)) (t\<lparr>logBuffer := []\<rparr>)")
       (simp add: Let_def split: option.split settled.split)
qed

lemma flush_empty_buffers:
  assumes "logBuffer t = []" "spanBuffer t = []"
  shows "fst (flush t) = Fulfilled \<and> effects (snd (flush t)) = effects t \<and>
         world (snd (flush t)) = world t \<and>
         logBuffer (snd (flush t)) = [] \<and> spanBuffer (snd (flush t)) = []"
proof (cases "canAttempt (Date_now (host t) (world t)) (circuitBreaker t)")
  case (Pair ok cb)
  show ?thesis
  proof (cases ok)
    case False
    with Pair assms show ?thesis by (simp add: flush_def)
  next
    case True
    with Pair flush_granted[of t cb] assms show ?thesis
      by (simp add: Let_def split: option.split)
  qed
qed

lemma flush_frame:
  "same_config t (snd (flush t)) \<and>
   (logBuffer (snd (flush t)) = [] \<and> spanBuffer (snd (flush t)) = [] \<or>
    logBuffer (snd (flush t)) = logBuffer t \<and> spanBuffer (snd (flush t)) = spanBuffer t)"
proof (cases "canAttempt (Date_now (host t) (world t)) (circuitBreaker t)")
  case (Pair ok cb)
  show ?thesis
  proof (cases ok)
    case False
    with Pair show ?thesis by (simp add: flush_def same_config_def)
  next
    case True
    let ?t1 = "t\<lparr>circuitBreaker := cb, logBuffer := [], spanBuffer := []\<rparr>"
    let ?r = "if logBuffer t \<noteq> []
               then sendWithRetry (inner_sendLogs (inner t) (logBuffer t)) (SendLogs (logBuffer t)) ?t1
               else (Fulfilled, ?t1)"
    have t2: "logBuffer (snd ?r) = [] \<and> spanBuffer (snd ?r) = [] \<and> same_config t (snd ?r)"
      using sendWithRetry_frame[of "inner_sendLogs (inner t) (logBuffer t)" "SendLogs (logBuffer t)" ?t1]
      by (simp add: same_config_def)
    have sp: "logBuffer (snd (sendWithRetry send tag (snd ?r))) = [] \<and>
              spanBuffer (snd (sendWithRetry send tag (snd ?r))) = [] \<and>
              same_config t (snd (sendWithRetry send tag (snd ?r)))" for send tag
      using sendWithRetry_frame[of send tag "snd ?r"] t2 by (simp add: same_config_def)
    obtain s t2 where r: "?r = (s, t2)" by (cases ?r)
    have "logBuffer (snd (flush t)) = [] \<and> spanBuffer (snd (flush t)) = [] \<and> same_config t (snd (flush t))"
    proof (cases s)
      case (Rejected x)
      with flush_granted[of t cb] Pair True t2 r show ?thesis by (simp add: Let_def)
    next
      case Fulfilled
      show ?thesis
      proof (cases "inner_sendSpans (inner t)")
        case None
        with flush_granted[of t cb] Pair True t2 r Fulfilled show ?thesis by (simp add: Let_def)
      next
        case (Some send)
        from sp[of "send (spanBuffer t)" "SendSpans (spanBuffer t)"] r
        have "logBuffer (snd (sendWithRetry (send (spanBuffer t)) (SendSpans (spanBuffer t)) t2)) = [] \<and>
              spanBuffer (snd (sendWithRetry (send (spanBuffer t)) (SendSpans (spanBuffer t)) t2)) = [] \<and>
              same_config t (snd (sendWithRetry (send (spanBuffer t)) (SendSpans (spanBuffer t)) t2))" by simp
        with flush_granted[of t cb] Pair True t2 r Fulfilled Some show ?thesis by (simp add: Let_def)
      qed
    qed
    then show ?thesis by simp
  qed
qed

lemma within_capacity_preserved:
  assumes "within_capacity t"
  shows "within_capacity (snd (flush t)) \<and> within_capacity (snd (sendLogs xs t)) \<and>
         within_capacity (snd (sendSpans ys t))"
proof -
  have fl: "within_capacity (snd (flush u))" if "within_capacity u" for u :: "('a, 'b, 'c) BatchTransport"
    using flush_frame[of u] that by (auto simp: within_capacity_def same_config_def)
  let ?l = "t\<lparr>logBuffer := logBuffer t @ take (maxBufferSize t - length (logBuffer t)) xs\<rparr>"
  let ?s = "t\<lparr>spanBuffer := spanBuffer t @ take (maxBufferSize t - length (spanBuffer t)) ys\<rparr>"
  have "within_capacity ?l" "within_capacity ?s"
    using assms by (auto simp: within_capacity_def)
  with fl[of ?l] fl[of ?s] fl[OF assms] show ?thesis
    by (simp add: sendLogs_def sendSpans_def Let_def push_all_take)
qed

lemma retry_loop_last_round:
  assumes "a = maxRetries t"
  shows "world (snd (retry_loop send tag le a t)) = snd (send (world t))"
proof -
  obtain r w1 where f: "send (world t) = (r, w1)" by (cases "send (world t)")
  show ?thesis
  proof (cases r)
    case Fulfilled
    with f assms show ?thesis by (simp add: retry_loop_fulfilled)
  next
    case (Rejected err)
    show ?thesis
    proof (cases "to_Error err")
      case (Inl x)
      with f Rejected assms show ?thesis by (simp add: retry_loop_unconverted)
    next
      case (Inr e)
      with f Rejected assms show ?thesis by (simp add: retry_loop_rejected_last)
    qed
  qed
qed

text \<open>
  C2, as amended. On a freshly constructed transport, fewer than \<open>batchSize\<close> single-log
  appends never invoke the inner transport's \<^verbatim>\<open>sendLogs\<close>: the world is as it was. When
  \<open>batchSize \<le> maxBufferSize\<close>, the \<open>batchSize\<close>-th append invokes it with the batch of all
  queued entries in append order, at least once and at most \<open>maxRetries + 1\<close> times, every
  time with that batch; exactly once when the first invocation is fulfilled or
  \<open>maxRetries\<close> is 0, and the world is then the one that this one invocation leaves. The
  log of the invocations is the trace of what was done to the world.
\<close>

theorem size_triggered_flush:
  fixes options :: "('l, 's, 'w) BatchTransportOptions" and h :: "'w Host" and w :: 'w
    and ls :: "'l list" and l :: 'l
  defines "t0 \<equiv> new_BatchTransport options h w"
  shows "(length ls < batchSize t0 \<longrightarrow>
            log_calls (effects (append_each ls t0)) = [] \<and> world (append_each ls t0) = w) \<and>
         (length ls + 1 = batchSize t0 \<and> batchSize t0 \<le> maxBufferSize t0 \<longrightarrow>
            (\<exists>k. 1 \<le> k \<and> k \<le> maxRetries t0 + 1 \<and>
                 log_calls (effects (append_each (ls @ [l]) t0)) = replicate k (ls @ [l])) \<and>
            replay (inner t0) h (effects (append_each (ls @ [l]) t0)) w =
              Some (world (append_each (ls @ [l]) t0)) \<and>
            (fst (inner_sendLogs (inner t0) (ls @ [l]) w) = Fulfilled \<or> maxRetries t0 = 0 \<longrightarrow>
                 log_calls (effects (append_each (ls @ [l]) t0)) = [ls @ [l]] \<and>
                 world (append_each (ls @ [l]) t0) = snd (inner_sendLogs (inner t0) (ls @ [l]) w)))"
proof (intro conjI impI)
  have init: "logBuffer t0 = []" "effects t0 = []" "spanBuffer t0 = []" "world t0 = w" "host t0 = h"
    "state (circuitBreaker t0) = CLOSED"
    by (simp_all add: t0_def new_BatchTransport_def new_CircuitBreaker_def)
  {
    assume "length ls < batchSize t0"
    with append_each_quiet[of t0 ls] init
    show "log_calls (effects (append_each ls t0)) = []" "world (append_each ls t0) = w" by simp_all
  }
  assume a: "length ls + 1 = batchSize t0 \<and> batchSize t0 \<le> maxBufferSize t0"
  let ?b = "ls @ [l]"
  let ?t1 = "t0\<lparr>logBuffer := ls\<rparr>"
  let ?t2 = "t0\<lparr>logBuffer := ?b\<rparr>"
  let ?t3 = "t0\<lparr>logBuffer := []\<rparr>"
  let ?r = "retry_loop (inner_sendLogs (inner t0) ?b) (SendLogs ?b) None 0 ?t3"
  from a init have "append_each ls t0 = ?t1"
    using append_each_buffered[of t0 ls] by simp
  then have "append_each ?b t0 = snd (sendLogs [l] ?t1)" by (simp add: append_each_snoc)
  also from a have "\<dots> = snd (flush ?t2)"
    by (simp add: sendLogs_def push_unless_full_def Let_def)
  also from init have "\<dots> = snd (sendWithRetry (inner_sendLogs (inner t0) ?b) (SendLogs ?b) ?t3)"
    using flush_logs_only[of ?t2] by simp
  finally have r: "append_each ?b t0 = snd ?r"
    by (simp add: sendWithRetry_def)
  from retry_loop_log_calls[of 0 ?t3 "inner_sendLogs (inner t0) ?b" ?b None] init
  obtain k where k: "log_calls (effects (append_each ?b t0)) = replicate k ?b" "1 \<le> k" "k \<le> Suc (maxRetries t0)"
    unfolding r by auto
  then show "\<exists>k. 1 \<le> k \<and> k \<le> maxRetries t0 + 1 \<and>
                 log_calls (effects (append_each (ls @ [l]) t0)) = replicate k (ls @ [l])"
    by auto
  from retry_loop_replay[of 0 ?t3 ?b None] init
  show "replay (inner t0) h (effects (append_each (ls @ [l]) t0)) w =
              Some (world (append_each (ls @ [l]) t0))"
    unfolding r by auto
  assume c: "fst (inner_sendLogs (inner t0) (ls @ [l]) w) = Fulfilled \<or> maxRetries t0 = 0"
  then show "log_calls (effects (append_each (ls @ [l]) t0)) = [ls @ [l]]"
  proof
    assume "maxRetries t0 = 0"
    with k have "k = 1" by simp
    with k show ?thesis by simp
  next
    assume "fst (inner_sendLogs (inner t0) (ls @ [l]) w) = Fulfilled"
    then obtain w1 where f: "inner_sendLogs (inner ?t3) ?b (world ?t3) = (Fulfilled, w1)"
      using init by (cases "inner_sendLogs (inner t0) (ls @ [l]) w") auto
    have "?r = (Fulfilled,
      ?t3\<lparr>world := w1, circuitBreaker := recordSuccess (circuitBreaker ?t3),
           effects := effects ?t3 @ [SendLogs ?b True, BreakerSuccess]\<rparr>)"
      using f by (intro retry_loop_fulfilled) simp_all
    with init show ?thesis unfolding r by simp
  qed
  from c show "world (append_each (ls @ [l]) t0) = snd (inner_sendLogs (inner t0) (ls @ [l]) w)"
  proof
    assume "maxRetries t0 = 0"
    then have "0 = maxRetries ?t3" by simp
    from retry_loop_last_round[OF this] init show ?thesis unfolding r by simp
  next
    assume "fst (inner_sendLogs (inner t0) (ls @ [l]) w) = Fulfilled"
    then obtain w1 where f: "inner_sendLogs (inner ?t3) ?b (world ?t3) = (Fulfilled, w1)"
      using init by (cases "inner_sendLogs (inner t0) (ls @ [l]) w") auto
    have "?r = (Fulfilled,
      ?t3\<lparr>world := w1, circuitBreaker := recordSuccess (circuitBreaker ?t3),
           effects := effects ?t3 @ [SendLogs ?b True, BreakerSuccess]\<rparr>)"
      using f by (intro retry_loop_fulfilled) simp_all
    with init f show ?thesis unfolding r by simp
  qed
qed

theorem size_triggered_flush_witness:
  "length [''a'', ''b''] < batchSize (new_BatchTransport (mock_options (makeMockInner False) 3 None 0) mock_host mock_world0) \<and>
   length [''a'', ''b''] + 1 = batchSize (new_BatchTransport (mock_options (makeMockInner False) 3 None 0) mock_host mock_world0) \<and>
   batchSize (new_BatchTransport (mock_options (makeMockInner False) 3 None 0) mock_host mock_world0)
     \<le> maxBufferSize (new_BatchTransport (mock_options (makeMockInner False) 3 None 0) mock_host mock_world0) \<and>
   log_calls (effects (append_each [''a'', ''b'']
     (new_BatchTransport (mock_options (makeMockInner False) 3 None 0) mock_host mock_world0))) = [] \<and>
   callCount (world (append_each [''a'', ''b'']
     (new_BatchTransport (mock_options (makeMockInner False) 3 None 0) mock_host mock_world0))) = 0 \<and>
   log_calls (effects (append_each ([''a'', ''b''] @ [''c''])
     (new_BatchTransport (mock_options (makeMockInner False) 3 None 0) mock_host mock_world0))) = [[''a'', ''b'', ''c'']] \<and>
   callCount (world (append_each ([''a'', ''b''] @ [''c''])
     (new_BatchTransport (mock_options (makeMockInner False) 3 None 0) mock_host mock_world0))) = 1 \<and>
   sentLogs (world (append_each ([''a'', ''b''] @ [''c''])
     (new_BatchTransport (mock_options (makeMockInner False) 3 None 0) mock_host mock_world0))) = [[''a'', ''b'', ''c'']]"
  using size_triggered_flush[of "[''a'', ''b'']" "mock_options (makeMockInner False) 3 None 0" mock_host mock_world0 "''c''"]
  by (simp add: new_BatchTransport_def mock_host_def mock_options_def default_to_def makeMockInner_def
      mock_world0_def)

text \<open>
  C2 as stated fails in two ways. With \<open>batchSize = 3\<close> and \<open>maxBufferSize = 2\<close> the third
  append is dropped and the inner transport is not invoked at all. With \<open>batchSize = 2\<close>,
  \<open>maxRetries = 1\<close> and an inner transport that rejects, the second append invokes it
  twice.
\<close>

theorem size_triggered_flush_counterexample:
  "batchSize (new_BatchTransport (mock_options (makeMockInner False) 3 (Some 2) 0) mock_host mock_world0) = 3 \<and>
   log_calls (effects (append_each [''a'', ''b'', ''c'']
     (new_BatchTransport (mock_options (makeMockInner False) 3 (Some 2) 0) mock_host mock_world0))) = [] \<and>
   callCount (world (append_each [''a'', ''b'', ''c'']
     (new_BatchTransport (mock_options (makeMockInner False) 3 (Some 2) 0) mock_host mock_world0))) = 0 \<and>
   batchSize (new_BatchTransport (mock_options (makeMockInner True) 2 None 1) mock_host mock_world0) = 2 \<and>
   log_calls (effects (append_each [''a'', ''b'']
     (new_BatchTransport (mock_options (makeMockInner True) 2 None 1) mock_host mock_world0))) = [[''a'', ''b''], [''a'', ''b'']] \<and>
   callCount (world (append_each [''a'', ''b'']
     (new_BatchTransport (mock_options (makeMockInner True) 2 None 1) mock_host mock_world0))) = 2"
  by (simp add: append_each_def sendLogs_def push_unless_full_def Let_def
      new_BatchTransport_def mock_host_def mock_options_def default_to_def makeMockInner_def
      flush_def canAttempt_def new_CircuitBreaker_def sendWithRetry_def retry_loop.simps
      recordFailure_def mock_host_def mock_world0_def send_failed_def to_Error_def debug_message_def)

text \<open>
  A new transport with \<open>maxBufferSize = 2\<close> that is sent [a, b, c] and then flushed: what
  it has done is one run of the retry loop on the batch [a, b], whatever \<open>batchSize\<close> is.
\<close>

lemma flush_after_drop:
  fixes options :: "('l, 's, 'w) BatchTransportOptions" and h :: "'w Host" and w :: 'w
    and a :: 'l and b :: 'l and c :: 'l
  defines "t0 \<equiv> new_BatchTransport options h w"
  defines "r \<equiv> retry_loop (inner_sendLogs (inner t0) [a, b]) (SendLogs [a, b]) None 0 (t0\<lparr>logBuffer := []\<rparr>)"
  assumes "opt_maxBufferSize options = Some 2"
  shows "effects (snd (flush (snd (sendLogs [a, b, c] t0)))) = effects (snd r) \<and>
         world (snd (flush (snd (sendLogs [a, b, c] t0)))) = world (snd r) \<and>
         logBuffer (snd (flush (snd (sendLogs [a, b, c] t0)))) = []"
proof -
  let ?t1 = "t0\<lparr>logBuffer := [a, b]\<rparr>"
  let ?t3 = "t0\<lparr>logBuffer := []\<rparr>"
  have init: "logBuffer t0 = []" "effects t0 = []" "spanBuffer t0 = []" "world t0 = w"
    "state (circuitBreaker t0) = CLOSED" "inner t0 = opt_inner options"
    by (simp_all add: t0_def new_BatchTransport_def new_CircuitBreaker_def)
  from assms(3) have cap: "maxBufferSize t0 = 2" by (simp add: t0_def new_BatchTransport_def default_to_def)
  have f1: "flush ?t1 = r"
    using flush_logs_only[of ?t1] init by (simp add: sendWithRetry_def r_def)
  have fr: "logBuffer (snd r) = []" "spanBuffer (snd r) = []"
    using retry_loop_frame[of 0 ?t3 "inner_sendLogs (inner t0) [a, b]" "SendLogs [a, b]" None] init
    by (simp_all add: r_def)
  show ?thesis
  proof (cases "batchSize t0 \<le> 2")
    case True
    then have "sendLogs [a, b, c] t0 = r"
      by (simp add: sendLogs_def push_unless_full_def cap init Let_def f1)
    with flush_empty_buffers[OF fr] show ?thesis by simp
  next
    case False
    then have "sendLogs [a, b, c] t0 = (Fulfilled, ?t1)"
      by (simp add: sendLogs_def push_unless_full_def cap init Let_def)
    with f1 fr show ?thesis by simp
  qed
qed

text \<open>
  C5. \<^verbatim>\<open>sendLogs\<close> and \<^verbatim>\<open>sendSpans\<close> append the incoming items, in order, for as long as the
  buffer holds fewer than \<open>maxBufferSize\<close> items, and drop the others: the buffer is the
  old one followed by the first \<open>maxBufferSize - length\<close> incoming items; the method then
  flushes when the buffer has reached \<open>batchSize\<close>. So a single item that finds its buffer
  holding \<open>maxBufferSize\<close> items (or more) is dropped and the buffer is unchanged, and an
  item that finds fewer is appended. A buffer never holds more than \<open>maxBufferSize\<close> items:
  a new transport is within capacity and \<^verbatim>\<open>sendLogs\<close>, \<^verbatim>\<open>sendSpans\<close> and \<^verbatim>\<open>flush\<close> keep it so.

  With \<open>maxBufferSize = 2\<close>, sending [a, b, c] to a new transport and then flushing leaves
  the buffer empty and invokes the inner transport with [a, b] and with nothing else,
  whatever \<open>batchSize\<close> is: once, and once more for each retry, the log of these
  invocations being the trace of what was done to the world. When the inner transport
  accepts the batch, it is invoked once: the world is the one that this invocation leaves.
\<close>

theorem drop_newest_when_full:
  fixes t :: "('l, 's, 'w) BatchTransport" and options :: "('l, 's, 'w) BatchTransportOptions"
    and h :: "'w Host" and w :: 'w and a :: 'l and b :: 'l and c :: 'l
  defines "t0 \<equiv> new_BatchTransport options h w"
  defines "t' \<equiv> snd (flush (snd (sendLogs [a, b, c] t0)))"
  shows
  "sendLogs xs t =
     (if batchSize t \<le> length (logBuffer t @ take (maxBufferSize t - length (logBuffer t)) xs)
      then flush (t\<lparr>logBuffer := logBuffer t @ take (maxBufferSize t - length (logBuffer t)) xs\<rparr>)
      else (Fulfilled, t\<lparr>logBuffer := logBuffer t @ take (maxBufferSize t - length (logBuffer t)) xs\<rparr>)) \<and>
   sendSpans ys t =
     (if batchSize t \<le> length (spanBuffer t @ take (maxBufferSize t - length (spanBuffer t)) ys)
      then flush (t\<lparr>spanBuffer := spanBuffer t @ take (maxBufferSize t - length (spanBuffer t)) ys\<rparr>)
      else (Fulfilled, t\<lparr>spanBuffer := spanBuffer t @ take (maxBufferSize t - length (spanBuffer t)) ys\<rparr>)) \<and>
   (maxBufferSize t \<le> length (logBuffer t) \<longrightarrow>
      sendLogs [x] t = (if batchSize t \<le> length (logBuffer t) then flush t else (Fulfilled, t))) \<and>
   (length (logBuffer t) < maxBufferSize t \<longrightarrow>
      sendLogs [x] t =
        (if batchSize t \<le> length (logBuffer t) + 1 then flush (t\<lparr>logBuffer := logBuffer t @ [x]\<rparr>)
         else (Fulfilled, t\<lparr>logBuffer := logBuffer t @ [x]\<rparr>))) \<and>
   (maxBufferSize t \<le> length (spanBuffer t) \<longrightarrow>
      sendSpans [y] t = (if batchSize t \<le> length (spanBuffer t) then flush t else (Fulfilled, t))) \<and>
   (length (spanBuffer t) < maxBufferSize t \<longrightarrow>
      sendSpans [y] t =
        (if batchSize t \<le> length (spanBuffer t) + 1 then flush (t\<lparr>spanBuffer := spanBuffer t @ [y]\<rparr>)
         else (Fulfilled, t\<lparr>spanBuffer := spanBuffer t @ [y]\<rparr>))) \<and>
   within_capacity t0 \<and>
   (within_capacity t \<longrightarrow>
      within_capacity (snd (sendLogs xs t)) \<and> within_capacity (snd (sendSpans ys t)) \<and>
      within_capacity (snd (flush t))) \<and>
   (opt_maxBufferSize options = Some 2 \<longrightarrow>
      logBuffer t' = [] \<and>
      (\<exists>k. 1 \<le> k \<and> k \<le> maxRetries t0 + 1 \<and> log_calls (effects t') = replicate k [a, b]) \<and>
      replay (opt_inner options) h (effects t') w = Some (world t')) \<and>
   (opt_maxBufferSize options = Some 2 \<and> fst (inner_sendLogs (opt_inner options) [a, b] w) = Fulfilled \<longrightarrow>
      world t' = snd (inner_sendLogs (opt_inner options) [a, b] w) \<and>
      log_calls (effects t') = [[a, b]] \<and> delivered_logs (effects t') = [[a, b]])"
proof -
  have c1: "sendLogs xs t =
     (if batchSize t \<le> length (logBuffer t @ take (maxBufferSize t - length (logBuffer t)) xs)
      then flush (t\<lparr>logBuffer := logBuffer t @ take (maxBufferSize t - length (logBuffer t)) xs\<rparr>)
      else (Fulfilled, t\<lparr>logBuffer := logBuffer t @ take (maxBufferSize t - length (logBuffer t)) xs\<rparr>))"
    by (simp add: sendLogs_def push_all_take Let_def)
  have c2: "sendSpans ys t =
     (if batchSize t \<le> length (spanBuffer t @ take (maxBufferSize t - length (spanBuffer t)) ys)
      then flush (t\<lparr>spanBuffer := spanBuffer t @ take (maxBufferSize t - length (spanBuffer t)) ys\<rparr>)
      else (Fulfilled, t\<lparr>spanBuffer := spanBuffer t @ take (maxBufferSize t - length (spanBuffer t)) ys\<rparr>))"
    by (simp add: sendSpans_def push_all_take Let_def)
  have c3: "maxBufferSize t \<le> length (logBuffer t) \<longrightarrow>
      sendLogs [x] t = (if batchSize t \<le> length (logBuffer t) then flush t else (Fulfilled, t))"
    by (simp add: sendLogs_def push_unless_full_def Let_def)
  have c4: "length (logBuffer t) < maxBufferSize t \<longrightarrow>
      sendLogs [x] t =
        (if batchSize t \<le> length (logBuffer t) + 1 then flush (t\<lparr>logBuffer := logBuffer t @ [x]\<rparr>)
         else (Fulfilled, t\<lparr>logBuffer := logBuffer t @ [x]\<rparr>))"
    by (simp add: sendLogs_def push_unless_full_def Let_def)
  have c5: "maxBufferSize t \<le> length (spanBuffer t) \<longrightarrow>
      sendSpans [y] t = (if batchSize t \<le> length (spanBuffer t) then flush t else (Fulfilled, t))"
    by (simp add: sendSpans_def push_unless_full_def Let_def)
  have c6: "length (spanBuffer t) < maxBufferSize t \<longrightarrow>
      sendSpans [y] t =
        (if batchSize t \<le> length (spanBuffer t) + 1 then flush (t\<lparr>spanBuffer := spanBuffer t @ [y]\<rparr>)
         else (Fulfilled, t\<lparr>spanBuffer := spanBuffer t @ [y]\<rparr>))"
    by (simp add: sendSpans_def push_unless_full_def Let_def)
  have c7: "within_capacity t0"
    by (simp add: within_capacity_def t0_def new_BatchTransport_def)
  have c8: "within_capacity t \<longrightarrow>
      within_capacity (snd (sendLogs xs t)) \<and> within_capacity (snd (sendSpans ys t)) \<and>
      within_capacity (snd (flush t))"
    using within_capacity_preserved[of t xs ys] by simp
  let ?t3 = "t0\<lparr>logBuffer := []\<rparr>"
  let ?r = "retry_loop (inner_sendLogs (inner t0) [a, b]) (SendLogs [a, b]) None 0 ?t3"
  have init: "logBuffer t0 = []" "effects t0 = []" "spanBuffer t0 = []" "world t0 = w" "host t0 = h"
    "state (circuitBreaker t0) = CLOSED" "inner t0 = opt_inner options"
    by (simp_all add: t0_def new_BatchTransport_def new_CircuitBreaker_def)
  have c9: "opt_maxBufferSize options = Some 2 \<longrightarrow>
      logBuffer t' = [] \<and>
      (\<exists>k. 1 \<le> k \<and> k \<le> maxRetries t0 + 1 \<and> log_calls (effects t') = replicate k [a, b]) \<and>
      replay (opt_inner options) h (effects t') w = Some (world t')"
  proof (intro impI conjI)
    assume m: "opt_maxBufferSize options = Some 2"
    from flush_after_drop[where options = options and h = h and w = w and a = a and b = b and c = c] m
    have d: "effects t' = effects (snd ?r)" "world t' = world (snd ?r)" "logBuffer t' = []"
      by (simp_all add: t'_def t0_def)
    from d show "logBuffer t' = []" by simp
    from retry_loop_log_calls[of 0 ?t3 "inner_sendLogs (inner t0) [a, b]" "[a, b]" None] init
    obtain k where "log_calls (effects (snd ?r)) = replicate k [a, b]" "1 \<le> k" "k \<le> Suc (maxRetries t0)"
      by auto
    with d show "\<exists>k. 1 \<le> k \<and> k \<le> maxRetries t0 + 1 \<and> log_calls (effects t') = replicate k [a, b]"
      by auto
    from retry_loop_replay[of 0 ?t3 "[a, b]" None] init d
    show "replay (opt_inner options) h (effects t') w = Some (world t')" by auto
  qed
  have c10: "opt_maxBufferSize options = Some 2 \<and> fst (inner_sendLogs (opt_inner options) [a, b] w) = Fulfilled \<longrightarrow>
      world t' = snd (inner_sendLogs (opt_inner options) [a, b] w) \<and>
      log_calls (effects t') = [[a, b]] \<and> delivered_logs (effects t') = [[a, b]]"
  proof (intro impI)
    assume hyp: "opt_maxBufferSize options = Some 2 \<and> fst (inner_sendLogs (opt_inner options) [a, b] w) = Fulfilled"
    from flush_after_drop[where options = options and h = h and w = w and a = a and b = b and c = c] hyp
    have d: "effects t' = effects (snd ?r)" "world t' = world (snd ?r)"
      by (simp_all add: t'_def t0_def)
    from hyp obtain w1 where f: "inner_sendLogs (inner t0) [a, b] (world ?t3) = (Fulfilled, w1)"
      using init by (cases "inner_sendLogs (opt_inner options) [a, b] w") auto
    have "?r = (Fulfilled,
        ?t3\<lparr>world := w1, circuitBreaker := recordSuccess (circuitBreaker ?t3),
             effects := effects ?t3 @ [SendLogs [a, b] True, BreakerSuccess]\<rparr>)"
      using f by (intro retry_loop_fulfilled) simp_all
    with d f init show "world t' = snd (inner_sendLogs (opt_inner options) [a, b] w) \<and>
      log_calls (effects t') = [[a, b]] \<and> delivered_logs (effects t') = [[a, b]]"
      by simp
  qed
  show ?thesis by (intro conjI c1 c2 c3 c4 c5 c6 c7 c8 c9 c10)
qed

text \<open>
  The repository's test of the cap: \<open>batchSize = 1000\<close>, \<open>maxBufferSize = 2\<close> and an inner
  transport that accepts. It has counted one call and has recorded the batch [a, b].
\<close>

theorem drop_newest_when_full_witness:
  "maxBufferSize ((new_BatchTransport (mock_options (makeMockInner False) 1000 (Some 2) 0) mock_host mock_world0)
      \<lparr>logBuffer := [''a'', ''b'']\<rparr>)
     \<le> length (logBuffer ((new_BatchTransport (mock_options (makeMockInner False) 1000 (Some 2) 0) mock_host mock_world0)
      \<lparr>logBuffer := [''a'', ''b'']\<rparr>)) \<and>
   sendLogs [''c''] ((new_BatchTransport (mock_options (makeMockInner False) 1000 (Some 2) 0) mock_host mock_world0)
      \<lparr>logBuffer := [''a'', ''b'']\<rparr>) =
     (Fulfilled, (new_BatchTransport (mock_options (makeMockInner False) 1000 (Some 2) 0) mock_host mock_world0)
      \<lparr>logBuffer := [''a'', ''b'']\<rparr>) \<and>
   opt_maxBufferSize (mock_options (makeMockInner False) 1000 (Some 2) 0) = Some 2 \<and>
   fst (inner_sendLogs (opt_inner (mock_options (makeMockInner False) 1000 (Some 2) 0)) [''a'', ''b''] mock_world0) = Fulfilled \<and>
   sentLogs (world (snd (flush (snd (sendLogs [''a'', ''b'', ''c'']
      (new_BatchTransport (mock_options (makeMockInner False) 1000 (Some 2) 0) mock_host mock_world0)))))) = [[''a'', ''b'']] \<and>
   callCount (world (snd (flush (snd (sendLogs [''a'', ''b'', ''c'']
      (new_BatchTransport (mock_options (makeMockInner False) 1000 (Some 2) 0) mock_host mock_world0)))))) = 1 \<and>
   logBuffer (snd (flush (snd (sendLogs [''a'', ''b'', ''c'']
      (new_BatchTransport (mock_options (makeMockInner False) 1000 (Some 2) 0) mock_host mock_world0))))) = []"
  using drop_newest_when_full
    [of "[''c'']" "(new_BatchTransport (mock_options (makeMockInner False) 1000 (Some 2) 0) mock_host mock_world0)\<lparr>logBuffer := [''a'', ''b'']\<rparr>"
        "[]" "''c''" "''s''" "mock_options (makeMockInner False) 1000 (Some 2) 0" mock_host mock_world0
        "''a''" "''b''" "''c''"]
  by (simp add: new_BatchTransport_def mock_host_def mock_options_def default_to_def makeMockInner_def
      mock_world0_def)

section \<open>Properties of the hub\<close>

text \<open>
  C8, as amended. When the hub holds no client, \<^verbatim>\<open>captureError\<close> and \<^verbatim>\<open>captureLog\<close> return the
  hub unchanged, and \<^verbatim>\<open>addBreadcrumb\<close> returns the hub with the breadcrumb added to the global
  scope's breadcrumbs and nothing else changed; none of them throws, whatever the
  arguments and whatever the client's methods would do.
\<close>

theorem hub_without_client:
  assumes "client h = None"
  shows "captureError methods error metadata h = Inr h \<and>
         captureLog methods level message metadata h = Inr h \<and>
         addBreadcrumb methods breadcrumb h =
           Inr (h\<lparr>globalScope := (globalScope h)\<lparr>breadcrumbs := add breadcrumb (breadcrumbs (globalScope h))\<rparr>\<rparr>)"
  using assms
  by (simp add: captureError_def captureLog_def addBreadcrumb_def optional_call_def scope_addBreadcrumb_def)

theorem hub_without_client_witness:
  "client (new_Hub ''4bf92f3577b34da6a3ce929d0e0e4736'' 100 :: (nat, string, unit, unit) Hub) = None \<and>
   captureError counting_client ''boom'' None (new_Hub ''4bf92f3577b34da6a3ce929d0e0e4736'' 100)
     = Inr (new_Hub ''4bf92f3577b34da6a3ce929d0e0e4736'' 100) \<and>
   captureLog counting_client ''info'' ''no client'' None (new_Hub ''4bf92f3577b34da6a3ce929d0e0e4736'' 100)
     = Inr (new_Hub ''4bf92f3577b34da6a3ce929d0e0e4736'' 100)"
proof -
  have h: "client (new_Hub ''4bf92f3577b34da6a3ce929d0e0e4736'' 100 :: (nat, string, unit, unit) Hub) = None"
    by (simp add: new_Hub_def)
  from hub_without_client[OF h, of counting_client "''boom''" None "''info''" "''no client''" "''crumb''"] h
  show ?thesis by simp
qed

text \<open>
  C8 as stated fails for \<^verbatim>\<open>addBreadcrumb\<close>: on a new hub, with no client, the global scope
  has one breadcrumb afterwards where it had none.
\<close>

theorem hub_addBreadcrumb_counterexample:
  "client (new_Hub ''4bf92f3577b34da6a3ce929d0e0e4736'' 100 :: (nat, string, unit, unit) Hub) = None \<and>
   getBreadcrumbs (getScope (new_Hub ''4bf92f3577b34da6a3ce929d0e0e4736'' 100 :: (nat, string, unit, unit) Hub)) = [] \<and>
   map_sum id (\<lambda>h. getBreadcrumbs (getScope h))
     (addBreadcrumb counting_client ''hub-bc'' (new_Hub ''4bf92f3577b34da6a3ce929d0e0e4736'' 100))
       = Inr [''hub-bc''] \<and>
   addBreadcrumb counting_client ''hub-bc'' (new_Hub ''4bf92f3577b34da6a3ce929d0e0e4736'' 100)
     \<noteq> Inr (new_Hub ''4bf92f3577b34da6a3ce929d0e0e4736'' 100)"
  by (simp add: addBreadcrumb_def optional_call_def scope_addBreadcrumb_def new_Hub_def new_Scope_def
      new_BreadcrumbBuffer_def add_def getBreadcrumbs_def getScope_def getAll_def)

section \<open>Properties of the error serializer\<close>

lemma parseStackTrace_cases:
  "parseStackTrace stack = Inl not_a_function \<and> truthy stack \<and> \<not> is_string stack \<or>
   (\<exists>frames. parseStackTrace stack = Inr frames) \<and> (\<not> truthy stack \<or> is_string stack)"
  by (cases stack) (simp_all add: parseStackTrace_def)

lemma parseStackTrace_returns:
  "(\<exists>frames. parseStackTrace stack = Inr frames) \<longleftrightarrow> \<not> truthy stack \<or> is_string stack"
  using parseStackTrace_cases[of stack] by auto

lemma object_result_returns:
  "(\<exists>r. object_result stringify heap (JRef a) props = Inr r) \<longleftrightarrow>
   (case lookup props ''message'' of
      Some m \<Rightarrow> is_string m \<or> \<not> throws (stringify heap (JRef a))
    | None \<Rightarrow> \<not> throws (stringify heap (JRef a)))"
proof (cases "lookup props ''message''")
  case None
  then show ?thesis
    by (cases "stringify heap (JRef a)") (auto simp: object_result_def throws_def split: option.split)
next
  case (Some m)
  then show ?thesis
    by (cases m; cases "stringify heap (JRef a)")
       (auto simp: object_result_def throws_def split: option.split)
qed

text \<open>
  The call returns exactly when the chain of causes ends within the room of the stack and
  every value on it can be rendered.
\<close>

lemma serializeError_returns:
  "(\<exists>r. serializeError room stringify heap error = Inr r) \<longleftrightarrow>
     cause_chain room heap error \<noteq> [] \<and>
     \<not> has_cause heap (last (cause_chain room heap error)) \<and>
     list_all (renderable stringify heap) (cause_chain room heap error)"
proof (induction room arbitrary: error)
  case 0
  show ?case by simp
next
  case (Suc room)
  show ?case
  proof (cases error)
    case (JRef a)
    show ?thesis
    proof (cases "heap a")
      case (PlainObject props)
      with JRef object_result_returns[of stringify heap a props] show ?thesis
        by (simp add: error_fields_def has_cause_def renderable_def)
    next
      case (ErrorObject e)
      show ?thesis
      proof (cases "\<not> truthy (err_stack e) \<or> is_string (err_stack e)")
        case False
        with parseStackTrace_cases[of "err_stack e"]
        have "parseStackTrace (err_stack e) = Inl not_a_function" by auto
        with JRef ErrorObject False show ?thesis
          by (simp add: error_fields_def renderable_def)
      next
        case True
        with parseStackTrace_returns[of "err_stack e"]
        obtain frames where p: "parseStackTrace (err_stack e) = Inr frames" by auto
        show ?thesis
        proof (cases "truthy (err_cause e)")
          case False
          with JRef ErrorObject True p show ?thesis
            by (simp add: error_fields_def has_cause_def renderable_def)
        next
          case c: True
          let ?cs = "cause_chain room heap (err_cause e)"
          have chain: "cause_chain (Suc room) heap error = error # ?cs"
            using JRef ErrorObject c by (simp add: error_fields_def)
          have r: "renderable stringify heap error"
            using JRef ErrorObject True by (simp add: renderable_def)
          have hc: "has_cause heap error"
            using JRef ErrorObject c by (simp add: has_cause_def error_fields_def)
          have "(\<exists>r. serializeError (Suc room) stringify heap error = Inr r) \<longleftrightarrow>
                (\<exists>r. serializeError room stringify heap (err_cause e) = Inr r)"
            using JRef ErrorObject p c
            by (cases "serializeError room stringify heap (err_cause e)") simp_all
          also have "\<dots> \<longleftrightarrow> ?cs \<noteq> [] \<and> \<not> has_cause heap (last ?cs) \<and> list_all (renderable stringify heap) ?cs"
            by (rule Suc.IH)
          also have "\<dots> \<longleftrightarrow> \<not> has_cause heap (last (error # ?cs)) \<and>
                         list_all (renderable stringify heap) (error # ?cs)"
            using r hc by auto
          finally show ?thesis unfolding chain by simp
        qed
      qed
    qed
  qed (simp_all add: error_fields_def has_cause_def renderable_def)
qed

text \<open>
  A chain whose values can all be rendered and that does not end within the room of
  the stack: the call throws the \<^verbatim>\<open>RangeError\<close> of the stack overflow.
\<close>

lemma serializeError_overflows:
  assumes "list_all (renderable stringify heap) (cause_chain room heap error)"
    and "cause_chain room heap error = [] \<or> has_cause heap (last (cause_chain room heap error))"
  shows "serializeError room stringify heap error = Inl stack_overflow"
  using assms
proof (induction room arbitrary: error)
  case 0
  show ?case by simp
next
  case (Suc room)
  from Suc.prems(2) have hc0: "has_cause heap (last (cause_chain (Suc room) heap error))" by simp
  show ?case
  proof (cases "has_cause heap error")
    case False
    then have "cause_chain (Suc room) heap error = [error]"
      by (auto simp: has_cause_def split: option.splits)
    with hc0 False show ?thesis by simp
  next
    case True
    then obtain a e where e: "error = JRef a" "heap a = ErrorObject e" "truthy (err_cause e)"
      by (auto simp: has_cause_def error_fields_def split: jsval.splits jsobj.splits)
    let ?cs = "cause_chain room heap (err_cause e)"
    have chain: "cause_chain (Suc room) heap error = error # ?cs"
      using e by (simp add: error_fields_def)
    from Suc.prems(1) e have "\<not> truthy (err_stack e) \<or> is_string (err_stack e)"
      by (simp add: renderable_def)
    with parseStackTrace_returns[of "err_stack e"]
    obtain frames where p: "parseStackTrace (err_stack e) = Inr frames" by auto
    from Suc.prems(1) have 1: "list_all (renderable stringify heap) ?cs" unfolding chain by simp
    from hc0 have 2: "?cs = [] \<or> has_cause heap (last ?cs)"
      unfolding chain by (cases "?cs = []") simp_all
    from Suc.IH[OF 1 2] e p show ?thesis by simp
  qed
qed

text \<open>What the type and the message of the result are.\<close>

lemma serializeError_strings:
  assumes "serializeError room stringify heap error = Inr r"
  shows "(is_string (exn_type r) \<longleftrightarrow> gives_string_type heap error) \<and>
         (is_string (exn_message r) \<longleftrightarrow> gives_string_message stringify heap error)"
proof (cases room)
  case 0
  with assms show ?thesis by simp
next
  case (Suc n)
  show ?thesis
  proof (cases error)
    case (JRef a)
    show ?thesis
    proof (cases "heap a")
      case (ErrorObject e)
      with assms Suc JRef show ?thesis
        by (auto simp: gives_string_type_def gives_string_message_def error_fields_def error_result_def
            split: sum.splits if_splits)
    next
      case (PlainObject props)
      with assms Suc JRef show ?thesis
        by (auto simp: gives_string_type_def gives_string_message_def error_fields_def object_result_def
            split: sum.splits option.splits jsval.splits)
    qed
  qed (use assms Suc in \<open>auto simp: gives_string_type_def gives_string_message_def error_fields_def
         message_result_def\<close>)
qed

text \<open>An \<^verbatim>\<open>Error\<close> that is its own cause overflows the stack, however much room there is.\<close>

lemma self_caused_overflows:
  "serializeError room stringify self_caused (JRef 0) = Inl stack_overflow"
proof (induction room)
  case 0
  show ?case by simp
next
  case (Suc room)
  from parseStackTrace_returns[of "JStr ''Error: x''"]
  obtain frames where "parseStackTrace (JStr ''Error: x'') = Inr frames" by auto
  with Suc show ?case by (simp add: self_caused_def)
qed

text \<open>So does a finite chain with more causes than the stack has room for.\<close>

lemma linked_errors_overflow:
  "room \<le> k \<Longrightarrow> serializeError room stringify linked_errors (JRef k) = Inl stack_overflow"
proof (induction room arbitrary: k)
  case 0
  show ?case by simp
next
  case (Suc room)
  from parseStackTrace_returns[of "JStr ''Error: x''"]
  obtain frames where p: "parseStackTrace (JStr ''Error: x'') = Inr frames" by auto
  from Suc.prems have "room \<le> k - 1" "k \<noteq> 0" by simp_all
  with Suc.IH[of "k - 1"] p show ?case by (simp add: linked_errors_def)
qed

lemma linked_errors_return:
  "k < room \<Longrightarrow> \<exists>r. serializeError room stringify linked_errors (JRef k) = Inr r"
proof (induction k arbitrary: room)
  case 0
  from parseStackTrace_returns[of "JStr ''Error: x''"]
  obtain frames where p: "parseStackTrace (JStr ''Error: x'') = Inr frames" by auto
  from 0 obtain n where "room = Suc n" by (cases room) auto
  with p show ?case by (simp add: linked_errors_def)
next
  case (Suc k)
  from parseStackTrace_returns[of "JStr ''Error: x''"]
  obtain frames where p: "parseStackTrace (JStr ''Error: x'') = Inr frames" by auto
  from Suc.prems obtain n where n: "room = Suc n" "k < n" by (cases room) auto
  from Suc.IH[OF n(2)] obtain c where "serializeError n stringify linked_errors (JRef k) = Inr c" by blast
  with p n show ?case by (simp add: linked_errors_def)
qed

text \<open>
  C10, as amended. \<^verbatim>\<open>serializeError\<close> ends on every input, since the stack is finite, but it
  does not always return. It returns a structured exception exactly when the chain of
  causes that starts at the input ends within the room of the stack and every value on
  the chain can be rendered: each \<^verbatim>\<open>Error\<close> has a stack that is falsy or a string, and the
  value that ends the chain, when it is an object and not an \<^verbatim>\<open>Error\<close>, has a string message
  or is accepted by \<^verbatim>\<open>JSON.stringify\<close>. When every value can be rendered and the chain does
  not end within the room of the stack (a cyclic chain never does), the call throws a
  \<^verbatim>\<open>RangeError\<close>. The type of a result is a string unless the input is an \<^verbatim>\<open>Error\<close> whose
  name is not one; its message is a string unless the input is an \<^verbatim>\<open>Error\<close> whose message
  is not one, or an object without a string message for which \<^verbatim>\<open>JSON.stringify\<close> returns
  \<^verbatim>\<open>undefined\<close>.
\<close>

theorem serializeError_returns_iff_renderable:
  "((\<exists>r. serializeError room stringify heap error = Inr r) \<longleftrightarrow>
      cause_chain room heap error \<noteq> [] \<and>
      \<not> has_cause heap (last (cause_chain room heap error)) \<and>
      list_all (renderable stringify heap) (cause_chain room heap error)) \<and>
   (list_all (renderable stringify heap) (cause_chain room heap error) \<and>
    (cause_chain room heap error = [] \<or> has_cause heap (last (cause_chain room heap error))) \<longrightarrow>
      serializeError room stringify heap error = Inl stack_overflow) \<and>
   (\<forall>r. serializeError room stringify heap error = Inr r \<longrightarrow>
      (is_string (exn_type r) \<longleftrightarrow> gives_string_type heap error) \<and>
      (is_string (exn_message r) \<longleftrightarrow> gives_string_message stringify heap error))"
  using serializeError_returns[of room stringify heap error]
    serializeError_overflows[of stringify heap room error]
    serializeError_strings[of room stringify heap error]
  by blast

text \<open>
  The error with a cause of the repository's tests: a chain of two values, both
  rendered; the result has the type and the message of the error and carries the
  serialized cause.
\<close>

theorem serializeError_returns_iff_renderable_witness:
  "cause_chain 5 wrapped_error (JRef 10) = [JRef 10, JRef 11] \<and>
   \<not> has_cause wrapped_error (last (cause_chain 5 wrapped_error (JRef 10))) \<and>
   list_all (renderable no_json wrapped_error) (cause_chain 5 wrapped_error (JRef 10)) \<and>
   (\<exists>r. serializeError 5 no_json wrapped_error (JRef 10) = Inr r \<and>
      exn_type r = JStr ''Error'' \<and> exn_message r = JStr ''Main error'' \<and>
      map_option exn_message (exn_cause r) = Some (JStr ''Cause error'') \<and>
      is_string (exn_type r) \<and> is_string (exn_message r))"
proof -
  have c: "cause_chain 5 wrapped_error (JRef 10) = [JRef 10, JRef 11]"
    by (simp add: numeral_eq_Suc wrapped_error_def error_fields_def)
  have h: "\<not> has_cause wrapped_error (JRef 11)"
    by (simp add: has_cause_def error_fields_def wrapped_error_def)
  have l: "list_all (renderable no_json wrapped_error) [JRef 10, JRef 11]"
    by (simp add: renderable_def wrapped_error_def)
  from parseStackTrace_returns[of "JStr ''Error: Main error\<newline>    at main.js:20:10''"]
  obtain f0 where p0: "parseStackTrace (JStr ''Error: Main error\<newline>    at main.js:20:10'') = Inr f0" by auto
  from parseStackTrace_returns[of "JStr ''Error: Cause error\<newline>    at cause.js:10:5''"]
  obtain f1 where p1: "parseStackTrace (JStr ''Error: Cause error\<newline>    at cause.js:10:5'') = Inr f1" by auto
  have v: "\<forall>r. serializeError 5 no_json wrapped_error (JRef 10) = Inr r \<longrightarrow>
      exn_type r = JStr ''Error'' \<and> exn_message r = JStr ''Main error'' \<and>
      map_option exn_message (exn_cause r) = Some (JStr ''Cause error'')"
    by (simp add: numeral_eq_Suc wrapped_error_def p0 p1 error_result_def del: String.char.inject)
  have g: "gives_string_type wrapped_error (JRef 10)" "gives_string_message no_json wrapped_error (JRef 10)"
    by (simp_all add: gives_string_type_def gives_string_message_def error_fields_def wrapped_error_def)
  from serializeError_returns_iff_renderable[of 5 no_json wrapped_error "JRef 10"] c h l
  obtain r where r: "serializeError 5 no_json wrapped_error (JRef 10) = Inr r" by auto
  with v have "exn_type r = JStr ''Error'' \<and> exn_message r = JStr ''Main error'' \<and>
      map_option exn_message (exn_cause r) = Some (JStr ''Cause error'')" by blast
  with r c h l show ?thesis by simp
qed

text \<open>
  C10 as stated fails in five ways. The \<^verbatim>\<open>Error\<close> that is its own cause makes the call throw
  a \<^verbatim>\<open>RangeError\<close>, whatever the room of the stack. So does a finite chain with as many
  causes as the stack has room for calls (one cause less, and the call returns). An \<^verbatim>\<open>Error\<close>
  whose name is the number 42 gives a result whose type is that number. An empty object
  for which \<^verbatim>\<open>JSON.stringify\<close> returns \<^verbatim>\<open>undefined\<close> gives a result whose message is
  \<^verbatim>\<open>undefined\<close>; and when \<^verbatim>\<open>JSON.stringify\<close> throws, the call throws.
\<close>

theorem serializeError_counterexample:
  "(\<forall>room stringify. serializeError room stringify self_caused (JRef 0) = Inl stack_overflow) \<and>
   (\<forall>room stringify. serializeError room stringify linked_errors (JRef room) = Inl stack_overflow) \<and>
   (\<forall>room stringify. \<exists>r. serializeError (Suc room) stringify linked_errors (JRef room) = Inr r) \<and>
   (\<forall>room stringify.
      map_sum id exn_type (serializeError (Suc room) stringify numbered_error (JRef 0)) = Inr (JOther True ''42'')) \<and>
   \<not> is_string (JOther True ''42'') \<and>
   (\<forall>room. map_sum id exn_message (serializeError (Suc room) undefined_json empty_object (JRef 0)) = Inr JUndefined) \<and>
   \<not> is_string JUndefined \<and>
   (\<forall>room. serializeError (Suc room) no_json empty_object (JRef 0) = Inl circular_structure)"
proof -
  from parseStackTrace_returns[of "JStr ''Error: x''"]
  obtain frames where p: "parseStackTrace (JStr ''Error: x'') = Inr frames" by auto
  have n: "map_sum id exn_type (serializeError (Suc room) stringify numbered_error (JRef 0)) = Inr (JOther True ''42'')"
    for room stringify
    by (simp add: numbered_error_def p error_result_def)
  have u: "map_sum id exn_message (serializeError (Suc room) undefined_json empty_object (JRef 0)) = Inr JUndefined"
    for room
    by (simp add: empty_object_def object_result_def lookup_def undefined_json_def)
  have j: "serializeError (Suc room) no_json empty_object (JRef 0) = Inl circular_structure" for room
    by (simp add: empty_object_def object_result_def lookup_def no_json_def)
  show ?thesis
    using self_caused_overflows linked_errors_overflow[OF order_refl] linked_errors_return[OF lessI] n u j
    by simp
qed

text \<open>
  The frames of the repository's stack trace tests: a location alone, and a function name
  with a location in parentheses; a line that does not start with "at" gives no frame.
  A stack that is neither falsy nor a string makes the call throw.
\<close>

theorem parseStackTrace_examples:
  "parseStackTrace (JStr ''Error: Test error\<newline>    at test.js:1:1'') =
     Inr [\<lparr>frame_file = Some ''test.js'', frame_function = None,
           frame_line = Some (SafeInteger 1), frame_column = Some (SafeInteger 1)\<rparr>] \<and>
   parseStackTrace (JStr ''Error: Test error\<newline>    at handleRequest (/app/src/api.ts:42:15)'') =
     Inr [\<lparr>frame_file = Some ''/app/src/api.ts'', frame_function = Some ''handleRequest'',
           frame_line = Some (SafeInteger 42), frame_column = Some (SafeInteger 15)\<rparr>] \<and>
   parseStackTrace JUndefined = Inr [] \<and> parseStackTrace (JStr []) = Inr [] \<and>
   parseStackTrace (JOther True ''5'') = Inl not_a_function"
  by (simp add: parseStackTrace_def trim_def is_space_def startsWith_def parse_frame_def rx_exec_def
      FRAME_FUNCTION_LOCATION_def FRAME_LOCATION_def rx_candidates_def is_dot_def is_digit_def
      parseInt_def digit_val_def Let_def upt_conv_Cons)

section \<open>Further properties\<close>

lemma canAttempt_refused: "\<not> fst (canAttempt now cb) \<Longrightarrow> canAttempt now cb = (False, cb)"
  by (auto simp: canAttempt_def split: option.splits if_splits)

text \<open>
  A flush that the breaker refuses changes nothing: both buffers keep their items and
  no call is made.
\<close>

theorem flush_refused_changes_nothing:
  "\<not> fst (canAttempt (Date_now (host t) (world t)) (circuitBreaker t)) \<Longrightarrow> flush t = (Fulfilled, t)"
  by (drule canAttempt_refused) (simp add: flush_def)

theorem flush_refused_changes_nothing_witness:
  "\<not> fst (canAttempt
       (Date_now (host ((new_BatchTransport (mock_options (makeMockInner True) 1000 None 0) mock_host mock_world0)
          \<lparr>logBuffer := [''a''], circuitBreaker := recordFailure 1700000000000 (new_CircuitBreaker 1 30000)\<rparr>))
         (world ((new_BatchTransport (mock_options (makeMockInner True) 1000 None 0) mock_host mock_world0)
          \<lparr>logBuffer := [''a''], circuitBreaker := recordFailure 1700000000000 (new_CircuitBreaker 1 30000)\<rparr>)))
       (circuitBreaker ((new_BatchTransport (mock_options (makeMockInner True) 1000 None 0) mock_host mock_world0)
          \<lparr>logBuffer := [''a''], circuitBreaker := recordFailure 1700000000000 (new_CircuitBreaker 1 30000)\<rparr>))) \<and>
   logBuffer (snd (flush ((new_BatchTransport (mock_options (makeMockInner True) 1000 None 0) mock_host mock_world0)
          \<lparr>logBuffer := [''a''], circuitBreaker := recordFailure 1700000000000 (new_CircuitBreaker 1 30000)\<rparr>)))
     = [''a'']"
proof -
  let ?t = "(new_BatchTransport (mock_options (makeMockInner True) 1000 None 0) mock_host mock_world0)
          \<lparr>logBuffer := [''a''], circuitBreaker := recordFailure 1700000000000 (new_CircuitBreaker 1 30000)\<rparr>"
  have h: "\<not> fst (canAttempt (Date_now (host ?t) (world ?t)) (circuitBreaker ?t))"
    by (simp add: new_BatchTransport_def mock_host_def mock_options_def makeMockInner_def mock_host_def mock_world0_def
        canAttempt_def recordFailure_def new_CircuitBreaker_def Let_def)
  from flush_refused_changes_nothing[OF h] h show ?thesis by simp
qed

text \<open>
  When every attempt is rejected with a value that the \<^verbatim>\<open>catch\<close> block handles, the effects
  of \<^verbatim>\<open>sendWithRetry\<close> are the attempts with a wait of \<open>retryDelayMs * 2 ^ attempt\<close> after each
  but the last, then the recorded failure.
\<close>

theorem retry_backoff_doubles:
  fixes t :: "('l, 's, 'w) BatchTransport"
  assumes "\<forall>w. handled_rejection (debug t) (fst (send w))"
  shows "effects_since t (snd (sendWithRetry send tag t)) =
           failed_attempts tag (retryDelayMs t) 0 (maxRetries t) @ [BreakerFailure] \<and>
         world (snd (sendWithRetry send tag t)) =
           world_after_attempts send (host t) (retryDelayMs t) (maxRetries t) (world t)"
proof -
  from retry_loop_all_rejected[OF _ assms, of 0 tag None]
  have e: "effects (snd (sendWithRetry send tag t)) =
          effects t @ failed_attempts tag (retryDelayMs t) 0 (maxRetries t) @ [BreakerFailure]"
    and w: "world (snd (sendWithRetry send tag t)) =
           world_after_attempts send (host t) (retryDelayMs t) (maxRetries t) (world t)"
    by (simp_all add: sendWithRetry_def world_after_attempts_def)
  from e have "effects_since t (snd (sendWithRetry send tag t)) =
           failed_attempts tag (retryDelayMs t) 0 (maxRetries t) @ [BreakerFailure]"
    by (rule effects_since_append)
  with w show ?thesis by simp
qed

theorem retry_backoff_doubles_witness:
  "(\<forall>w. handled_rejection
          (debug ((new_BatchTransport (mock_options (makeMockInner True) 1000 None 2) mock_host mock_world0)\<lparr>retryDelayMs := 1000\<rparr>))
          (fst (inner_sendLogs (makeMockInner True) [''a''] w))) \<and>
   effects_since
     ((new_BatchTransport (mock_options (makeMockInner True) 1000 None 2) mock_host mock_world0)\<lparr>retryDelayMs := 1000\<rparr>)
     (snd (sendWithRetry (inner_sendLogs (makeMockInner True) [''a'']) (SendLogs [''a''])
        ((new_BatchTransport (mock_options (makeMockInner True) 1000 None 2) mock_host mock_world0)\<lparr>retryDelayMs := 1000\<rparr>)))
     = [SendLogs [''a''] False, Backoff 1000, SendLogs [''a''] False, Backoff 2000,
        SendLogs [''a''] False, BreakerFailure] \<and>
   clock (world (snd (sendWithRetry (inner_sendLogs (makeMockInner True) [''a'']) (SendLogs [''a''])
        ((new_BatchTransport (mock_options (makeMockInner True) 1000 None 2) mock_host mock_world0)\<lparr>retryDelayMs := 1000\<rparr>))))
     = clock mock_world0 + 3000 \<and>
   callCount (world (snd (sendWithRetry (inner_sendLogs (makeMockInner True) [''a'']) (SendLogs [''a''])
        ((new_BatchTransport (mock_options (makeMockInner True) 1000 None 2) mock_host mock_world0)\<lparr>retryDelayMs := 1000\<rparr>))))
     = 3"
proof -
  have h: "\<forall>w. handled_rejection
          (debug ((new_BatchTransport (mock_options (makeMockInner True) 1000 None 2) mock_host mock_world0)\<lparr>retryDelayMs := 1000\<rparr>))
          (fst (inner_sendLogs (makeMockInner True) [''a''] w))"
    by (simp add: makeMockInner_def handled_rejection_def send_failed_def to_Error_def debug_message_def)
  from retry_backoff_doubles[OF h, of "SendLogs [''a'']"] h
  show ?thesis
    by (simp add: new_BatchTransport_def mock_host_def mock_options_def default_to_def failed_attempts_def
        upt_conv_Cons world_after_attempts_def makeMockInner_def mock_world0_def)
qed

text \<open>A send that is fulfilled at once: one invocation, \<^verbatim>\<open>recordSuccess()\<close>, no wait.\<close>

theorem sendWithRetry_first_attempt_fulfilled:
  "fst (send (world t)) = Fulfilled \<Longrightarrow>
   sendWithRetry send tag t =
     (Fulfilled,
      t\<lparr>world := snd (send (world t)), circuitBreaker := recordSuccess (circuitBreaker t),
        effects := effects t @ [tag True, BreakerSuccess]\<rparr>)"
proof -
  assume "fst (send (world t)) = Fulfilled"
  then have "send (world t) = (Fulfilled, snd (send (world t)))" by (cases "send (world t)") simp
  then show ?thesis unfolding sendWithRetry_def by (intro retry_loop_fulfilled) simp_all
qed

theorem sendWithRetry_first_attempt_fulfilled_witness:
  "fst (inner_sendLogs (makeMockInner False) [''a''] mock_world0) = Fulfilled \<and>
   sentLogs (world (snd (sendWithRetry (inner_sendLogs (makeMockInner False) [''a'']) (SendLogs [''a''])
     (new_BatchTransport (mock_options (makeMockInner False) 1000 None 0) mock_host mock_world0)))) = [[''a'']] \<and>
   effects (snd (sendWithRetry (inner_sendLogs (makeMockInner False) [''a'']) (SendLogs [''a''])
     (new_BatchTransport (mock_options (makeMockInner False) 1000 None 0) mock_host mock_world0)))
     = [SendLogs [''a''] True, BreakerSuccess]"
proof -
  let ?t = "new_BatchTransport (mock_options (makeMockInner False) 1000 None 0) mock_host mock_world0"
  have w: "world ?t = mock_world0" "effects ?t = []" by (simp_all add: new_BatchTransport_def)
  have h: "fst (inner_sendLogs (makeMockInner False) [''a''] (world ?t)) = Fulfilled"
    by (simp add: makeMockInner_def)
  from sendWithRetry_first_attempt_fulfilled
    [of "inner_sendLogs (makeMockInner False) [''a'']" ?t "SendLogs [''a'']", OF h] h w
  show ?thesis by (simp add: makeMockInner_def mock_host_def mock_world0_def)
qed

text \<open>
  The breaker tests of the repository: a success resets the counter, so two failures, a
  success and two more failures leave a breaker of threshold 3 CLOSED.
\<close>

theorem success_resets_failure_count:
  "getState (cb_run 3 1000 [RecordFailure 5, RecordFailure 6, RecordSuccess, RecordFailure 7, RecordFailure 8])
     = ''CLOSED'' \<and>
   failureCount (recordSuccess cb) = 0 \<and> state (recordSuccess cb) = CLOSED"
  by (simp add: cb_run_def new_CircuitBreaker_def recordFailure_def recordSuccess_def getState_def Let_def)

text \<open>The parser tests of the repository: headers that do not match give null; white space around a header is ignored.\<close>

theorem parseTraceparent_examples:
  "parseTraceparent ''invalid'' = None \<and>
   parseTraceparent '''' = None \<and>
   parseTraceparent ''00-short-00f067aa0ba902b7-01'' = None \<and>
   parseTraceparent ''  00-4bf92f3577b34da6a3ce929d0e0e4736-00f067aa0ba902b7-01  '' =
     Some \<lparr>version = ''00'', traceId = ''4bf92f3577b34da6a3ce929d0e0e4736'',
           parentSpanId = ''00f067aa0ba902b7'', sampled = True\<rparr> \<and>
   map_option sampled (parseTraceparent ''00-4bf92f3577b34da6a3ce929d0e0e4736-00f067aa0ba902b7-00'') = Some False"
  by (simp add: parseTraceparent_def trim_def is_space_def rx_exec_def TRACEPARENT_REGEX_def
      rx_candidates_def is_hex_lower_def parseInt_def digit_val_def lowest_bit_set_def)

end
